theory Spec2Isabelle
  imports Complex_Main
begin

section \<open>EKF SLAM with unknown correspondences: the filter of \<open>EKF_SLAM_unknown_correspondences.py\<close>\<close>

text \<open>
  The class \<open>ExtendedKalmanFilterSLAM\<close> is embedded over exact real arithmetic: a numpy
  float is a \<^typ>\<open>real\<close>, a one-dimensional array a list of reals, a two-dimensional
  array a list of rows. The object's attributes are the fields of the record \<open>ekf\<close>, every
  method takes the object and returns the updated one, and an exception that escapes a
  method is the \<open>Inl\<close> branch of its result. Plotting and file loading are left out: the
  lookup table \<open>landmark_indexes\<close> and the first ground-truth row are parameters, and the
  attributes that are only written, or only read by the plot (\<open>G\<close>, \<open>K\<close>,
  \<open>landmark_idx\<close>, \<open>landmark_expected\<close>, \<open>landmark_current\<close>), are not kept.
\<close>

subsection \<open>Arrays\<close>

type_synonym vec = "real list"
type_synonym mat = "real list list"

datatype error = LinAlgError | AttributeError | IndexError

definition ncols :: "mat \<Rightarrow> nat" where
  "ncols A = (case A of [] \<Rightarrow> 0 | r # _ \<Rightarrow> length r)"

text \<open>\<open>A.dot(B)\<close> for two-dimensional operands of matching shapes.\<close>

definition dot :: "mat \<Rightarrow> mat \<Rightarrow> mat" where
  "dot A B = map (\<lambda>i. map (\<lambda>j. (\<Sum>k\<leftarrow>[0..<length B]. A ! i ! k * B ! k ! j))
                           [0..<ncols B]) [0..<length A]"

text \<open>\<open>A.dot(v)\<close> for a matrix and a one-dimensional array.\<close>

definition dotv :: "mat \<Rightarrow> vec \<Rightarrow> vec" where
  "dotv A v = map (\<lambda>i. (\<Sum>k\<leftarrow>[0..<length v]. A ! i ! k * v ! k)) [0..<length A]"

text \<open>\<open>v.dot(A)\<close> (\<open>v.T\<close> of a one-dimensional array is the array itself).\<close>

definition vdotm :: "vec \<Rightarrow> mat \<Rightarrow> vec" where
  "vdotm v A = map (\<lambda>j. (\<Sum>k\<leftarrow>[0..<length v]. v ! k * A ! k ! j)) [0..<ncols A]"

definition vdot :: "vec \<Rightarrow> vec \<Rightarrow> real" where
  "vdot u v = (\<Sum>k\<leftarrow>[0..<length u]. u ! k * v ! k)"

text \<open>\<open>A.T\<close>\<close>

definition transp_m :: "mat \<Rightarrow> mat" where
  "transp_m A = map (\<lambda>j. map (\<lambda>i. A ! i ! j) [0..<length A]) [0..<ncols A]"

definition identity :: "nat \<Rightarrow> mat" where
  "identity n = map (\<lambda>i. map (\<lambda>j. if i = j then 1 else 0) [0..<n]) [0..<n]"

definition madd :: "mat \<Rightarrow> mat \<Rightarrow> mat" where
  "madd A B = map (\<lambda>i. map (\<lambda>j. A ! i ! j + B ! i ! j) [0..<ncols A]) [0..<length A]"

definition msub :: "mat \<Rightarrow> mat \<Rightarrow> mat" where
  "msub A B = map (\<lambda>i. map (\<lambda>j. A ! i ! j - B ! i ! j) [0..<ncols A]) [0..<length A]"

text \<open>\<open>A[i][j] = v\<close>\<close>

definition set2 :: "mat \<Rightarrow> nat \<Rightarrow> nat \<Rightarrow> real \<Rightarrow> mat" where
  "set2 A i j v = A[i := (A ! i)[j := v]]"

text \<open>
  \<open>np.linalg.inv\<close> is only ever applied to the 3 x 3 innovation covariance. Where the
  call returns, its result is taken to be the inverse, the adjugate over the determinant.
\<close>

definition det3 :: "mat \<Rightarrow> real" where
  "det3 M = M ! 0 ! 0 * (M ! 1 ! 1 * M ! 2 ! 2 - M ! 1 ! 2 * M ! 2 ! 1)
          - M ! 0 ! 1 * (M ! 1 ! 0 * M ! 2 ! 2 - M ! 1 ! 2 * M ! 2 ! 0)
          + M ! 0 ! 2 * (M ! 1 ! 0 * M ! 2 ! 1 - M ! 1 ! 1 * M ! 2 ! 0)"

definition adj3 :: "mat \<Rightarrow> mat" where
  "adj3 M =
     [[M ! 1 ! 1 * M ! 2 ! 2 - M ! 1 ! 2 * M ! 2 ! 1,
       M ! 0 ! 2 * M ! 2 ! 1 - M ! 0 ! 1 * M ! 2 ! 2,
       M ! 0 ! 1 * M ! 1 ! 2 - M ! 0 ! 2 * M ! 1 ! 1],
      [M ! 1 ! 2 * M ! 2 ! 0 - M ! 1 ! 0 * M ! 2 ! 2,
       M ! 0 ! 0 * M ! 2 ! 2 - M ! 0 ! 2 * M ! 2 ! 0,
       M ! 0 ! 2 * M ! 1 ! 0 - M ! 0 ! 0 * M ! 1 ! 2],
      [M ! 1 ! 0 * M ! 2 ! 1 - M ! 1 ! 1 * M ! 2 ! 0,
       M ! 0 ! 1 * M ! 2 ! 0 - M ! 0 ! 0 * M ! 2 ! 1,
       M ! 0 ! 0 * M ! 1 ! 1 - M ! 0 ! 1 * M ! 1 ! 0]]"

definition inv3 :: "mat \<Rightarrow> mat" where
  "inv3 M = map (map (\<lambda>a. a / det3 M)) (adj3 M)"

text \<open>
  The library raises \<open>LinAlgError\<close> when its factorisation in floating point meets a
  pivot that is exactly zero. Rounding decides for which matrices that happens, so the
  set is not fixed here: it is the argument \<open>raises\<close> of the call and of every method
  that reaches it, and the properties below hold for every such set unless they name one.
\<close>

definition linalg_inv :: "(mat \<Rightarrow> bool) \<Rightarrow> mat \<Rightarrow> error + mat" where
  "linalg_inv raises M = (if raises M then Inl LinAlgError else Inr (inv3 M))"

text \<open>\<open>np.arctan2(y, x)\<close>, the angle of the point \<open>(x, y)\<close> in \<open>[-pi, pi]\<close>.\<close>

definition arctan2 :: "real \<Rightarrow> real \<Rightarrow> real" where
  "arctan2 y x =
     (if 0 < x then arctan (y / x)
      else if x < 0 then (if 0 \<le> y then arctan (y / x) + pi else arctan (y / x) - pi)
      else if 0 < y then pi / 2 else if y < 0 then - (pi / 2) else 0)"

subsection \<open>The filter object\<close>

text \<open>
  A row of \<open>self.data\<close>: \<open>[time, subject, forward_v, angular_v]\<close> for odometry, where the
  subject is \<open>-1\<close>, and \<open>[time, subject, range, bearing]\<close> for a measurement.
\<close>

record row =
  col0 :: real
  col1 :: real
  col2 :: real
  col3 :: real

text \<open>
  \<open>landmark_indexes\<close> is the dictionary from barcode subject to landmark number, listed
  as its items (keys distinct). \<open>association\<close> holds the attributes \<open>self.H\<close>,
  \<open>self.Psi\<close> and \<open>self.difference\<close>, which the scoring loop assigns together and which do
  not exist before the first assignment.
\<close>

record ekf =
  landmark_indexes :: "(real \<times> nat) list"
  landmark_observed :: "bool list"
  states :: "vec list"
  stamps :: "real list"
  last_timestamp :: real
  sigma :: mat
  R :: mat
  Q :: mat
  association :: "(mat \<times> mat \<times> vec) option"

definition dim :: "ekf \<Rightarrow> nat" where
  "dim s = 3 + 2 * length (landmark_indexes s)"

text \<open>
  \<open>initialization(R, Q)\<close>, after \<open>load_data\<close> has built the lookup table and the table
  of observed flags; \<open>gt\<close> is the first ground-truth row \<open>[time, x, y, orientation]\<close>.
\<close>

definition initialization :: "(real \<times> nat) list \<Rightarrow> row \<Rightarrow> mat \<Rightarrow> mat \<Rightarrow> ekf" where
  "initialization li gt R0 Q0 =
     (let n = 3 + 2 * length li in
      \<lparr> landmark_indexes = li,
        landmark_observed = replicate (length li + 1) False,
        states = [(map (\<lambda>i. 0) [0..<n])[0 := col1 gt, 1 := col2 gt, 2 := col3 gt]],
        stamps = [col0 gt],
        last_timestamp = col0 gt,
        sigma = map (\<lambda>i. map (\<lambda>j. if i = j \<and> 3 \<le> i then 1000000 else 1 / 1000000) [0..<n])
                    [0..<n],
        R = R0,
        Q = Q0,
        association = None \<rparr>)"

subsection \<open>Prediction\<close>

definition wrap_theta :: "real \<Rightarrow> real" where
  "wrap_theta th = (if th > pi then th - 2 * pi else if th < - pi then th + 2 * pi else th)"

text \<open>Step 1, the mean update: the new state row.\<close>

definition predicted_state :: "ekf \<Rightarrow> row \<Rightarrow> real \<Rightarrow> vec" where
  "predicted_state s control delta_t =
     (let prev = last (states s);
          x_t = prev ! 0 + col2 control * cos (prev ! 2) * delta_t;
          y_t = prev ! 1 + col2 control * sin (prev ! 2) * delta_t;
          theta_t = wrap_theta (prev ! 2 + col3 control * delta_t)
      in prev[0 := x_t, 1 := y_t, 2 := theta_t])"

text \<open>Step 2, the Jacobian \<open>G\<close> of the motion, taken at the previous heading.\<close>

definition motion_jacobian :: "ekf \<Rightarrow> row \<Rightarrow> real \<Rightarrow> mat" where
  "motion_jacobian s control delta_t =
     set2 (set2 (identity (dim s)) 0 2 (- col2 control * delta_t * sin (last (states s) ! 2)))
          1 2 (col2 control * delta_t * cos (last (states s) ! 2))"

text \<open>Step 3, the covariance update.\<close>

definition predicted_sigma :: "ekf \<Rightarrow> row \<Rightarrow> real \<Rightarrow> mat" where
  "predicted_sigma s control delta_t =
     (let G = motion_jacobian s control delta_t;
          sig = dot (dot G (sigma s)) (transp_m G);
          sig0 = set2 sig 0 0 (sig ! 0 ! 0 + R s ! 0 ! 0);
          sig1 = set2 sig0 1 1 (sig0 ! 1 ! 1 + R s ! 1 ! 1)
      in set2 sig1 2 2 (sig1 ! 2 ! 2 + R s ! 2 ! 2))"

definition motion_update :: "ekf \<Rightarrow> row \<Rightarrow> ekf" where
  "motion_update s control =
     (let delta_t = col0 control - last_timestamp s in
      if delta_t < 1 / 1000 then s
      else s\<lparr> states := states s @ [predicted_state s control delta_t],
              stamps := stamps s @ [col0 control],
              last_timestamp := col0 control,
              sigma := predicted_sigma s control delta_t \<rparr>)"

subsection \<open>Data association\<close>

text \<open>
  The first-sight initialisation: the flag of the measured landmark is set and its two
  components of the newest state row are overwritten in place.
\<close>

definition init_landmark :: "ekf \<Rightarrow> row \<Rightarrow> nat \<Rightarrow> ekf" where
  "init_landmark s measurement landmark_idx =
     (let cur = last (states s);
          landmark_x_expected = cur ! 0 + col2 measurement * cos (col3 measurement + cur ! 2);
          landmark_y_expected = cur ! 1 + col2 measurement * sin (col3 measurement + cur ! 2)
      in if \<not> landmark_observed s ! landmark_idx
         then s\<lparr> landmark_observed := (landmark_observed s)[landmark_idx := True],
                 states := butlast (states s) @
                   [cur[2 * landmark_idx + 1 := landmark_x_expected,
                        2 * landmark_idx + 2 := landmark_y_expected]] \<rparr>
         else s)"

text \<open>
  One pass of the scoring loop for landmark \<open>i\<close>. \<open>pose\<close> is \<open>(x_t, y_t, theta_t)\<close>, read
  before the initialisation.
\<close>

definition F_x :: "nat \<Rightarrow> nat \<Rightarrow> mat" where
  "F_x n i = map (\<lambda>a. map (\<lambda>b. if (a = 0 \<and> b = 0) \<or> (a = 1 \<and> b = 1) \<or> (a = 2 \<and> b = 2)
                                  \<or> (a = 3 \<and> b = 2 * i + 1) \<or> (a = 4 \<and> b = 2 * i + 2)
                               then 1 else 0) [0..<n]) [0..<5]"

definition delta_of :: "ekf \<Rightarrow> real \<times> real \<times> real \<Rightarrow> nat \<Rightarrow> real \<times> real" where
  "delta_of s pose i =
     (case pose of (x_t, y_t, theta_t) \<Rightarrow>
        (last (states s) ! (2 * i + 1) - x_t, last (states s) ! (2 * i + 2) - y_t))"

definition q_of :: "ekf \<Rightarrow> real \<times> real \<times> real \<Rightarrow> nat \<Rightarrow> real" where
  "q_of s pose i = (case delta_of s pose i of (delta_x, delta_y) \<Rightarrow> delta_x\<^sup>2 + delta_y\<^sup>2)"

definition jacobian :: "ekf \<Rightarrow> real \<times> real \<times> real \<Rightarrow> nat \<Rightarrow> mat" where
  "jacobian s pose i =
     (case delta_of s pose i of (delta_x, delta_y) \<Rightarrow>
      let q = delta_x\<^sup>2 + delta_y\<^sup>2;
          H_1 = [- delta_x / sqrt q, - delta_y / sqrt q, 0, delta_x / sqrt q, delta_y / sqrt q];
          H_2 = [delta_y / q, - delta_x / q, - 1, - delta_y / q, delta_x / q];
          H_3 = [0, 0, 0, 0, 0]
      in dot [H_1, H_2, H_3] (F_x (dim s) i))"

definition innovation_cov :: "ekf \<Rightarrow> mat \<Rightarrow> mat" where
  "innovation_cov s H = madd (dot (dot H (sigma s)) (transp_m H)) (Q s)"

definition range_expected :: "ekf \<Rightarrow> real \<times> real \<times> real \<Rightarrow> nat \<Rightarrow> real" where
  "range_expected s pose i = sqrt (q_of s pose i)"

definition bearing_expected :: "ekf \<Rightarrow> real \<times> real \<times> real \<Rightarrow> nat \<Rightarrow> real" where
  "bearing_expected s pose i =
     (case delta_of s pose i of (delta_x, delta_y) \<Rightarrow>
        arctan2 delta_y delta_x - snd (snd pose))"

definition difference_of :: "ekf \<Rightarrow> row \<Rightarrow> real \<times> real \<times> real \<Rightarrow> nat \<Rightarrow> vec" where
  "difference_of s measurement pose i =
     [col2 measurement - range_expected s pose i,
      col3 measurement - bearing_expected s pose i, 0]"

text \<open>The values \<open>H\<close>, \<open>Psi\<close> and \<open>difference\<close> that the loop body computes for landmark \<open>i\<close>.\<close>

definition candidate :: "ekf \<Rightarrow> row \<Rightarrow> real \<times> real \<times> real \<Rightarrow> nat \<Rightarrow> mat \<times> mat \<times> vec" where
  "candidate s measurement pose i =
     (jacobian s pose i, innovation_cov s (jacobian s pose i), difference_of s measurement pose i)"

definition mahalanobis :: "mat \<times> mat \<times> vec \<Rightarrow> real" where
  "mahalanobis c = (case c of (H, Psi, difference) \<Rightarrow>
     vdot (vdotm difference (inv3 Psi)) difference)"

text \<open>
  The loop \<open>for i in range(1, len(self.landmark_indexes) + 1)\<close>, with the running
  \<open>min_distance\<close> and the attributes assigned so far. A landmark lying exactly on the
  robot has \<open>q = 0\<close>: numpy divides by zero without raising, \<open>Pi\<close> is not a number, the
  comparison \<open>Pi < min_distance\<close> is false and the landmark is passed over. Otherwise
  \<open>np.linalg.inv(Psi)\<close> either raises or is the inverse that \<open>mahalanobis\<close> uses.
\<close>

fun scoring_loop :: "(mat \<Rightarrow> bool) \<Rightarrow> ekf \<Rightarrow> row \<Rightarrow> real \<times> real \<times> real \<Rightarrow> nat list \<Rightarrow>
    real \<times> (mat \<times> mat \<times> vec) option \<Rightarrow> error + (real \<times> (mat \<times> mat \<times> vec) option)" where
  "scoring_loop raises s measurement pose [] acc = Inr acc"
| "scoring_loop raises s measurement pose (i # rest) (min_distance, a) =
     (if \<not> landmark_observed s ! i
      then scoring_loop raises s measurement pose rest (min_distance, a)
      else if q_of s pose i = 0 then scoring_loop raises s measurement pose rest (min_distance, a)
      else case linalg_inv raises (fst (snd (candidate s measurement pose i))) of
             Inl e \<Rightarrow> Inl e
           | Inr P \<Rightarrow>
               if mahalanobis (candidate s measurement pose i) < min_distance
               then scoring_loop raises s measurement pose rest
                      (mahalanobis (candidate s measurement pose i),
                       Some (candidate s measurement pose i))
               else scoring_loop raises s measurement pose rest (min_distance, a))"

text \<open>\<open>x_t\<close>, \<open>y_t\<close> and \<open>theta_t\<close> of the newest state row.\<close>

definition pose_of :: "ekf \<Rightarrow> real \<times> real \<times> real" where
  "pose_of s = (last (states s) ! 0, last (states s) ! 1, last (states s) ! 2)"

definition data_association :: "(mat \<Rightarrow> bool) \<Rightarrow> ekf \<Rightarrow> row \<Rightarrow> error + ekf" where
  "data_association raises s measurement =
     (case map_of (landmark_indexes s) (col1 measurement) of
        None \<Rightarrow> Inr s
      | Some landmark_idx \<Rightarrow>
          if length (landmark_observed s) \<le> landmark_idx then Inl IndexError
          else
            let pose = pose_of s;
                s1 = init_landmark s measurement landmark_idx
            in case scoring_loop raises s1 measurement pose
                      [1..<length (landmark_indexes s) + 1]
                      (10 ^ 16, association s1) of
                 Inl e \<Rightarrow> Inl e
               | Inr (min_distance, a) \<Rightarrow> Inr (s1\<lparr> association := a \<rparr>))"

subsection \<open>Correction\<close>

definition kalman_gain :: "ekf \<Rightarrow> mat \<Rightarrow> mat \<Rightarrow> mat" where
  "kalman_gain s H P = dot (dot (sigma s) (transp_m H)) P"

definition corrected_state :: "ekf \<Rightarrow> mat \<Rightarrow> vec \<Rightarrow> vec" where
  "corrected_state s K difference =
     (let innovation = dotv K difference
      in map (\<lambda>i. last (states s) ! i + innovation ! i) [0..<length (last (states s))])"

definition corrected_sigma :: "ekf \<Rightarrow> mat \<Rightarrow> mat \<Rightarrow> mat" where
  "corrected_sigma s K H = dot (msub (identity (dim s)) (dot K H)) (sigma s)"

definition measurement_update :: "(mat \<Rightarrow> bool) \<Rightarrow> ekf \<Rightarrow> row \<Rightarrow> error + ekf" where
  "measurement_update raises s measurement =
     (case map_of (landmark_indexes s) (col1 measurement) of
        None \<Rightarrow> Inr s
      | Some landmark_idx \<Rightarrow>
          (case association s of
             None \<Rightarrow> Inl AttributeError
           | Some (H, Psi, difference) \<Rightarrow>
               (case linalg_inv raises Psi of
                  Inl e \<Rightarrow> Inl e
                | Inr P \<Rightarrow>
                    Inr (s\<lparr> states := states s @
                                [corrected_state s (kalman_gain s H P) difference],
                            last_timestamp := col0 measurement,
                            stamps := stamps s @ [col0 measurement],
                            sigma := corrected_sigma s (kalman_gain s H P) H \<rparr>))))"

subsection \<open>The event loop\<close>

definition step :: "(mat \<Rightarrow> bool) \<Rightarrow> ekf \<Rightarrow> row \<Rightarrow> error + ekf" where
  "step raises s data =
     (if col1 data = - 1 then Inr (motion_update s data)
      else case data_association raises s data of
             Inl e \<Rightarrow> Inl e
           | Inr s' \<Rightarrow> measurement_update raises s' data)"

fun run :: "(mat \<Rightarrow> bool) \<Rightarrow> ekf \<Rightarrow> row list \<Rightarrow> error + ekf" where
  "run raises s [] = Inr s"
| "run raises s (data # rest) =
     (case step raises s data of Inl e \<Rightarrow> Inl e | Inr s' \<Rightarrow> run raises s' rest)"

subsection \<open>Notions used in the properties\<close>

text \<open>
  The shapes that \<open>initialization\<close> establishes and every method keeps: a state row
  and the covariance have \<open>3 + 2 L\<close> entries per axis, there is one flag per landmark
  number \<open>0 .. L\<close>, and the two noise matrices are 3 x 3.
\<close>

definition is_mat :: "nat \<Rightarrow> nat \<Rightarrow> mat \<Rightarrow> bool" where
  "is_mat r c A \<longleftrightarrow> length A = r \<and> list_all (\<lambda>row. length row = c) A"

definition shapes_ok :: "ekf \<Rightarrow> bool" where
  "shapes_ok s \<longleftrightarrow>
     states s \<noteq> [] \<and> list_all (\<lambda>v. length v = dim s) (states s) \<and>
     length (landmark_observed s) = length (landmark_indexes s) + 1 \<and>
     is_mat (dim s) (dim s) (sigma s) \<and> is_mat 3 3 (R s) \<and> is_mat 3 3 (Q s) \<and>
     (case association s of None \<Rightarrow> True
      | Some (H, Psi, d) \<Rightarrow> is_mat 3 (dim s) H \<and> is_mat 3 3 Psi \<and> length d = 3)"

text \<open>One timestamp per state row, the last of them being \<open>last_timestamp\<close>.\<close>

definition stamps_aligned :: "ekf \<Rightarrow> bool" where
  "stamps_aligned s \<longleftrightarrow>
     length (stamps s) = length (states s) \<and> states s \<noteq> [] \<and> last_timestamp s = last (stamps s)"

text \<open>
  For a measurement \<open>z\<close> of the tracked landmark \<open>idx\<close>: the landmarks that the loop
  scores (flag set once the measured landmark is initialised, not lying on the robot),
  the values \<open>(H, Psi, difference)\<close> computed for landmark \<open>i\<close>, and its distance \<open>Pi\<close>.
\<close>

definition scored :: "ekf \<Rightarrow> real \<times> real \<times> real \<Rightarrow> nat list \<Rightarrow> nat list" where
  "scored s pose slots = filter (\<lambda>i. landmark_observed s ! i \<and> q_of s pose i \<noteq> 0) slots"

definition scored_slots :: "ekf \<Rightarrow> row \<Rightarrow> nat \<Rightarrow> nat list" where
  "scored_slots s z idx =
     scored (init_landmark s z idx) (pose_of s) [1..<length (landmark_indexes s) + 1]"

definition slot_values :: "ekf \<Rightarrow> row \<Rightarrow> nat \<Rightarrow> nat \<Rightarrow> mat \<times> mat \<times> vec" where
  "slot_values s z idx i = candidate (init_landmark s z idx) z (pose_of s) i"

definition slot_distance :: "ekf \<Rightarrow> row \<Rightarrow> nat \<Rightarrow> nat \<Rightarrow> real" where
  "slot_distance s z idx i = mahalanobis (slot_values s z idx i)"

text \<open>Symmetry of the leading \<open>n\<close> by \<open>n\<close> block of a matrix.\<close>

definition symmetric_m :: "nat \<Rightarrow> mat \<Rightarrow> bool" where
  "symmetric_m n A \<longleftrightarrow> list_all (\<lambda>i. list_all (\<lambda>j. A ! i ! j = A ! j ! i) [0..<n]) [0..<n]"

text \<open>
  A filter object with the shapes of \<open>initialization\<close> whose covariance is symmetric,
  whose measurement noise \<open>Q\<close> is a symmetric matrix, as a covariance matrix is, and
  whose stored \<open>Psi\<close>, if there is one, is symmetric.
\<close>

definition cov_ok :: "ekf \<Rightarrow> bool" where
  "cov_ok s \<longleftrightarrow>
     shapes_ok s \<and> symmetric_m (dim s) (sigma s) \<and> symmetric_m 3 (Q s) \<and>
     (case association s of None \<Rightarrow> True | Some (H, Psi, d) \<Rightarrow> symmetric_m 3 Psi)"

subsection \<open>Concrete objects and events\<close>

text \<open>
  In the runs evaluated below every matrix that is inverted is diagonal, and the inversion
  is taken to raise on those that have a row of zeros: the pivot of such a row is zero
  whatever the rounding, and the pivots of the others are their diagonal entries.
\<close>

definition ex_raises :: "mat \<Rightarrow> bool" where
  "ex_raises M \<longleftrightarrow> [0, 0, 0] \<in> set M"

text \<open>
  A filter for one landmark (barcode subject 6, landmark number 1) that starts at the
  origin at time 0, and a few rows of data for it.
\<close>

definition ex_gt :: row where
  "ex_gt = \<lparr>col0 = 0, col1 = 0, col2 = 0, col3 = 0\<rparr>"

definition ex_I3 :: mat where
  "ex_I3 = [[1, 0, 0], [0, 1, 0], [0, 0, 1]]"

definition ex_init :: ekf where
  "ex_init = initialization [(6, 1)] ex_gt ex_I3 ex_I3"

definition ex_sigma0 :: mat where
  "ex_sigma0 =
     [[1 / 1000000, 1 / 1000000, 1 / 1000000, 1 / 1000000, 1 / 1000000],
      [1 / 1000000, 1 / 1000000, 1 / 1000000, 1 / 1000000, 1 / 1000000],
      [1 / 1000000, 1 / 1000000, 1 / 1000000, 1 / 1000000, 1 / 1000000],
      [1 / 1000000, 1 / 1000000, 1 / 1000000, 1000000, 1 / 1000000],
      [1 / 1000000, 1 / 1000000, 1 / 1000000, 1 / 1000000, 1000000]]"

text \<open>An odometry row stamped before the filter's last timestamp.\<close>

definition ex_early :: row where
  "ex_early = \<lparr>col0 = - 1, col1 = - 1, col2 = 1, col3 = 1\<rparr>"

text \<open>Odometry rows one second after the start, turning by \<open>-pi\<close> and by \<open>4 pi\<close>.\<close>

definition ex_turn :: row where
  "ex_turn = \<lparr>col0 = 1, col1 = - 1, col2 = 0, col3 = - pi\<rparr>"

definition ex_spin :: row where
  "ex_spin = \<lparr>col0 = 1, col1 = - 1, col2 = 0, col3 = 4 * pi\<rparr>"

text \<open>A measurement of the landmark at range 2 straight ahead, and what it leads to.\<close>

definition ex_z :: row where
  "ex_z = \<lparr>col0 = 1, col1 = 6, col2 = 2, col3 = 0\<rparr>"

definition ex_s1 :: ekf where
  "ex_s1 = \<lparr>landmark_indexes = [(6, 1)], landmark_observed = [False, True],
     states = [[0, 0, 0, 2, 0]], stamps = [0], last_timestamp = 0, sigma = ex_sigma0,
     R = ex_I3, Q = ex_I3, association = None\<rparr>"

definition ex_H :: mat where
  "ex_H = [[- 1, 0, 0, 1, 0], [0, - (1 / 2), - 1, 0, 1 / 2], [0, 0, 0, 0, 0]]"

definition ex_Psi :: mat where
  "ex_Psi = [[1000000999999 / 1000000, 0, 0], [0, 1000004000003 / 4000000, 0], [0, 0, 1]]"

definition ex_Psi_inv :: mat where
  "ex_Psi_inv = [[1000000 / 1000000999999, 0, 0], [0, 4000000 / 1000004000003, 0], [0, 0, 1]]"

definition ex_s1a :: ekf where
  "ex_s1a = ex_s1\<lparr>association := Some (ex_H, ex_Psi, [0, 0, 0])\<rparr>"

definition ex_sigma1 :: mat where
  "ex_sigma1 =
     [[1000003999999 / 1000004000003000000, 1000003999999 / 1000004000003000000,
       1000003999999 / 1000004000003000000, 1000003999999 / 1000004000003000000,
       3000003999997 / 1000004000003000000],
      [1000003999999 / 1000004000003000000, 1000003999999 / 1000004000003000000,
       1000003999999 / 1000004000003000000, 1000003999999 / 1000004000003000000,
       3000003999997 / 1000004000003000000],
      [1000003999999 / 1000004000003000000, 1000003999999 / 1000004000003000000,
       1000003999999 / 1000004000003000000, 1000003999999 / 1000004000003000000,
       3000003999997 / 1000004000003000000],
      [1000003999999 / 1000004000003000000, 1000003999999 / 1000004000003000000,
       1000003999999 / 1000004000003000000,
       1000005000006999997999992000001 / 1000005000005999998999997000000,
       3000003999997 / 1000004000003000000],
      [3000003999997 / 1000004000003000000, 3000003999997 / 1000004000003000000,
       3000003999997 / 1000004000003000000, 3000003999997 / 1000004000003000000,
       4000008999999999991 / 1000004000003000000]]"

definition ex_s2 :: ekf where
  "ex_s2 = \<lparr>landmark_indexes = [(6, 1)], landmark_observed = [False, True],
     states = [[0, 0, 0, 2, 0], [0, 0, 0, 2, 0]], stamps = [0, 1], last_timestamp = 1,
     sigma = ex_sigma1, R = ex_I3, Q = ex_I3,
     association = Some (ex_H, ex_Psi, [0, 0, 0])\<rparr>"

text \<open>
  The same filter with a symmetric process noise that is not diagonal, and an odometry
  row one second after the start with \<open>v = 0\<close> and \<open>w = 0\<close>.
\<close>

definition ex_Rsym :: mat where
  "ex_Rsym = [[1, 1 / 2, 0], [1 / 2, 1, 0], [0, 0, 1]]"

definition ex_initR :: ekf where
  "ex_initR = initialization [(6, 1)] ex_gt ex_Rsym ex_I3"

definition ex_still :: row where
  "ex_still = \<lparr>col0 = 1, col1 = - 1, col2 = 0, col3 = 0\<rparr>"

definition ex_sigmaR :: mat where
  "ex_sigmaR =
     [[1000001 / 1000000, 1 / 1000000, 1 / 1000000, 1 / 1000000, 1 / 1000000],
      [1 / 1000000, 1000001 / 1000000, 1 / 1000000, 1 / 1000000, 1 / 1000000],
      [1 / 1000000, 1 / 1000000, 1000001 / 1000000, 1 / 1000000, 1 / 1000000],
      [1 / 1000000, 1 / 1000000, 1 / 1000000, 1000000, 1 / 1000000],
      [1 / 1000000, 1 / 1000000, 1 / 1000000, 1 / 1000000, 1000000]]"

text \<open>The same filter with the zero matrix for the measurement noise.\<close>

definition ex_Z3 :: mat where
  "ex_Z3 = [[0, 0, 0], [0, 0, 0], [0, 0, 0]]"

definition ex_init0 :: ekf where
  "ex_init0 = initialization [(6, 1)] ex_gt ex_I3 ex_Z3"

definition ex_s10 :: ekf where
  "ex_s10 = \<lparr>landmark_indexes = [(6, 1)], landmark_observed = [False, True],
     states = [[0, 0, 0, 2, 0]], stamps = [0], last_timestamp = 0, sigma = ex_sigma0,
     R = ex_I3, Q = ex_Z3, association = None\<rparr>"

definition ex_Psi0 :: mat where
  "ex_Psi0 = [[999999999999 / 1000000, 0, 0], [0, 1000000000003 / 4000000, 0], [0, 0, 0]]"

text \<open>A second measurement of the same landmark, a thousand million metres too long.\<close>

definition ex_far :: row where
  "ex_far = \<lparr>col0 = 2, col1 = 6, col2 = 1000000002, col3 = 0\<rparr>"

definition ex_Psi2 :: mat where
  "ex_Psi2 = [[2000000999998 / 1000000999999, 0, 0],
              [0, 2000004000006 / 1000004000003, 0], [0, 0, 1]]"

text \<open>
  After the first measurement has been processed, the same measurement again one second
  later: what data association leaves and what the correction returns.
\<close>

definition ex_again :: row where
  "ex_again = \<lparr>col0 = 2, col1 = 6, col2 = 2, col3 = 0\<rparr>"

definition ex_s2a :: ekf where
  "ex_s2a = ex_s2\<lparr>association := Some (ex_H, ex_Psi2, [0, 0, 0])\<rparr>"

definition ex_s3 :: ekf where
  "ex_s3 = ex_s2a\<lparr>
     states := states ex_s2a @
       [corrected_state ex_s2a (kalman_gain ex_s2a ex_H (inv3 ex_Psi2)) [0, 0, 0]],
     last_timestamp := 2,
     stamps := stamps ex_s2a @ [2],
     sigma := corrected_sigma ex_s2a (kalman_gain ex_s2a ex_H (inv3 ex_Psi2)) ex_H\<rparr>"

text \<open>
  The same filter started at heading \<open>pi\<close>, with the landmark at range 2 straight behind
  the robot: a first measurement of it at bearing \<open>-pi\<close> and, one second later with the
  robot at rest, a second one at bearing \<open>pi\<close>, and what they lead to.
\<close>

definition ex_gt_pi :: row where
  "ex_gt_pi = \<lparr>col0 = 0, col1 = 0, col2 = 0, col3 = pi\<rparr>"

definition ex_init_pi :: ekf where
  "ex_init_pi = initialization [(6, 1)] ex_gt_pi ex_I3 ex_I3"

definition ex_behind :: row where
  "ex_behind = \<lparr>col0 = 1, col1 = 6, col2 = 2, col3 = - pi\<rparr>"

definition ex_t1 :: ekf where
  "ex_t1 = \<lparr>landmark_indexes = [(6, 1)], landmark_observed = [False, True],
     states = [[0, 0, pi, 2, 0]], stamps = [0], last_timestamp = 0, sigma = ex_sigma0,
     R = ex_I3, Q = ex_I3, association = None\<rparr>"

definition ex_t1a :: ekf where
  "ex_t1a = ex_t1\<lparr>association := Some (ex_H, ex_Psi, [0, 0, 0])\<rparr>"

definition ex_t2 :: ekf where
  "ex_t2 = \<lparr>landmark_indexes = [(6, 1)], landmark_observed = [False, True],
     states = [[0, 0, pi, 2, 0], [0, 0, pi, 2, 0]], stamps = [0, 1], last_timestamp = 1,
     sigma = ex_sigma1, R = ex_I3, Q = ex_I3,
     association = Some (ex_H, ex_Psi, [0, 0, 0])\<rparr>"

definition ex_behind_again :: row where
  "ex_behind_again = \<lparr>col0 = 2, col1 = 6, col2 = 2, col3 = pi\<rparr>"

definition ex_t2a :: ekf where
  "ex_t2a = ex_t2\<lparr>association := Some (ex_H, ex_Psi2, [0, 2 * pi, 0])\<rparr>"

definition ex_t3 :: ekf where
  "ex_t3 = ex_t2a\<lparr>
     states := states ex_t2a @
       [corrected_state ex_t2a (kalman_gain ex_t2a ex_H (inv3 ex_Psi2)) [0, 2 * pi, 0]],
     last_timestamp := 2,
     stamps := stamps ex_t2a @ [2],
     sigma := corrected_sigma ex_t2a (kalman_gain ex_t2a ex_H (inv3 ex_Psi2)) ex_H\<rparr>"

section \<open>Properties\<close>

subsection \<open>Evaluating the concrete objects\<close>

lemmas arr_defs = ncols_def dot_def dotv_def vdotm_def vdot_def transp_m_def identity_def
  madd_def msub_def set2_def

lemma ex_init_val:
  "ex_init = \<lparr>landmark_indexes = [(6, 1)], landmark_observed = [False, False],
     states = [[0, 0, 0, 0, 0]], stamps = [0], last_timestamp = 0, sigma = ex_sigma0,
     R = ex_I3, Q = ex_I3, association = None\<rparr>"
  by (simp add: ex_init_def initialization_def ex_gt_def ex_I3_def upt_rec ex_sigma0_def)

lemma ex_init_shapes: "shapes_ok ex_init"
  by (simp add: ex_init_val shapes_ok_def is_mat_def dim_def ex_sigma0_def ex_I3_def)

subsection \<open>Prediction: the skip and the heading\<close>

text \<open>
  C5. A motion event whose \<open>delta_t = control[0] - last_timestamp\<close> is below 0.001,
  negative and zero values included, leaves the whole filter object as it was: state
  history, timestamps, covariance and every other attribute.
\<close>

theorem motion_skip_unchanged:
  assumes "col0 control - last_timestamp s < 1 / 1000"
  shows "motion_update s control = s \<and> (col1 control = - 1 \<longrightarrow> step raises s control = Inr s)"
  using assms by (simp add: motion_update_def step_def)

theorem motion_skip_unchanged_witness:
  "col0 ex_early - last_timestamp ex_init < 1 / 1000 \<and> col1 ex_early = - 1 \<and>
   motion_update ex_init ex_early = ex_init \<and> step ex_raises ex_init ex_early = Inr ex_init"
proof -
  have h: "col0 ex_early - last_timestamp ex_init < 1 / 1000"
    by (simp add: ex_early_def ex_init_val)
  show ?thesis using h motion_skip_unchanged [OF h] by (simp add: ex_early_def)
qed

lemma motion_theta:
  assumes "2 < length (last (states s))" "\<not> col0 control - last_timestamp s < 1 / 1000"
  shows "last (states (motion_update s control)) ! 2 =
         wrap_theta (last (states s) ! 2 + col3 control * (col0 control - last_timestamp s))"
  using assms by (simp add: motion_update_def predicted_state_def Let_def)

lemma wrap_theta_range:
  assumes "\<bar>th\<bar> \<le> 3 * pi"
  shows "- pi \<le> wrap_theta th \<and> wrap_theta th \<le> pi"
  using assms by (auto simp: wrap_theta_def abs_le_iff)

lemma shapes_last_length: "shapes_ok s \<Longrightarrow> length (last (states s)) = dim s"
  by (auto simp: shapes_ok_def list_all_iff)

text \<open>
  C3 as stated fails: the heading is wrapped once, by a test that lets \<open>-pi\<close> through.
  From heading 0, a turn by \<open>-pi\<close> ends at \<open>-pi\<close>, outside \<open>(-pi, pi]\<close>, and a turn by
  \<open>4 pi\<close> ends at \<open>2 pi\<close>.
\<close>

theorem motion_theta_half_open_counterexample:
  "\<not> (- pi < last (states (motion_update ex_init ex_turn)) ! 2) \<and>
   \<not> (last (states (motion_update ex_init ex_spin)) ! 2 \<le> pi)"
proof -
  have a: "last (states (motion_update ex_init ex_turn)) ! 2 = - pi"
    by (subst motion_theta) (simp_all add: ex_init_val ex_turn_def wrap_theta_def)
  have b: "last (states (motion_update ex_init ex_spin)) ! 2 = 2 * pi"
    by (subst motion_theta) (simp_all add: ex_init_val ex_spin_def wrap_theta_def)
  show ?thesis by (simp add: a b)
qed

text \<open>
  C3 amended. For a processed motion event whose unwrapped heading
  \<open>theta + w * delta_t\<close> is at most \<open>3 pi\<close> in absolute value, the heading of the new
  state lies in the closed interval \<open>[-pi, pi]\<close>.
\<close>

theorem motion_theta_closed_range:
  assumes "shapes_ok s" and "\<not> col0 control - last_timestamp s < 1 / 1000"
    and "\<bar>last (states s) ! 2 + col3 control * (col0 control - last_timestamp s)\<bar> \<le> 3 * pi"
  shows "- pi \<le> last (states (motion_update s control)) ! 2 \<and>
         last (states (motion_update s control)) ! 2 \<le> pi"
proof -
  have "2 < length (last (states s))"
    using shapes_last_length [OF assms(1)] by (simp add: dim_def)
  then show ?thesis
    using motion_theta [OF _ assms(2)] wrap_theta_range [OF assms(3)] by simp
qed

theorem motion_theta_closed_range_witness:
  "shapes_ok ex_init \<and> \<not> col0 ex_turn - last_timestamp ex_init < 1 / 1000 \<and>
   \<bar>last (states ex_init) ! 2 + col3 ex_turn * (col0 ex_turn - last_timestamp ex_init)\<bar>
     \<le> 3 * pi \<and>
   - pi \<le> last (states (motion_update ex_init ex_turn)) ! 2 \<and>
   last (states (motion_update ex_init ex_turn)) ! 2 \<le> pi"
proof -
  have h2: "\<not> col0 ex_turn - last_timestamp ex_init < 1 / 1000"
    by (simp add: ex_turn_def ex_init_val)
  have h3: "\<bar>last (states ex_init) ! 2 + col3 ex_turn * (col0 ex_turn - last_timestamp ex_init)\<bar>
              \<le> 3 * pi"
    by (simp add: ex_turn_def ex_init_val)
  show ?thesis
    using motion_theta_closed_range [OF ex_init_shapes h2 h3] ex_init_shapes h2 h3 by blast
qed

subsection \<open>The first measurement, evaluated\<close>

lemma upt_evals:
  "[0..<3] = [0, 1, 2]" "[0..<5] = [0, 1, 2, 3, 4]" "[Suc 0..<2] = [Suc 0]"
  by (simp_all add: upt_rec)

lemma ex_init_proj:
  "landmark_indexes ex_init = [(6, Suc 0)]" "landmark_observed ex_init = [False, False]"
  "states ex_init = [[0, 0, 0, 0, 0]]" "association ex_init = None"
  "last_timestamp ex_init = 0" "stamps ex_init = [0]"
  by (simp_all add: ex_init_val)

lemma ex_s1_init: "init_landmark ex_init ex_z (Suc 0) = ex_s1"
  by (simp add: ex_init_val init_landmark_def ex_z_def ex_s1_def)

lemma ex_jac: "jacobian ex_s1 (0, 0, 0) (Suc 0) = ex_H"
  apply (simp add: jacobian_def delta_of_def ex_s1_def Let_def dim_def F_x_def)
  apply (simp add: arr_defs upt_evals ex_H_def)
  done

lemma ex_psi: "innovation_cov ex_s1 ex_H = ex_Psi"
  apply (simp add: innovation_cov_def ex_s1_def ex_H_def ex_sigma0_def ex_I3_def)
  apply (simp add: arr_defs upt_evals ex_Psi_def)
  done

lemma ex_d: "difference_of ex_s1 ex_z (0, 0, 0) (Suc 0) = [0, 0, 0]"
  by (simp add: difference_of_def range_expected_def bearing_expected_def q_of_def delta_of_def
      ex_s1_def ex_z_def arctan2_def)

lemma ex_cand: "candidate ex_s1 ex_z (0, 0, 0) (Suc 0) = (ex_H, ex_Psi, [0, 0, 0])"
  by (simp add: candidate_def ex_jac ex_psi ex_d)

lemma ex_inv3: "inv3 ex_Psi = ex_Psi_inv"
  by (simp add: det3_def inv3_def adj3_def ex_Psi_def ex_Psi_inv_def)

lemma ex_det: "det3 ex_Psi \<noteq> 0"
  by (simp add: det3_def ex_Psi_def)

lemma ex_inv: "linalg_inv ex_raises ex_Psi = Inr ex_Psi_inv"
  by (simp add: linalg_inv_def ex_raises_def ex_inv3) (simp add: ex_Psi_def)

lemma ex_maha: "mahalanobis (ex_H, ex_Psi, [0, 0, 0]) = 0"
  by (simp add: mahalanobis_def ex_inv3 ex_Psi_inv_def vdot_def vdotm_def ncols_def upt_evals)

lemma ex_q: "q_of ex_s1 (0, 0, 0) (Suc 0) = 4"
  by (simp add: q_of_def delta_of_def ex_s1_def)

lemma ex_s1_proj:
  "landmark_observed ex_s1 ! Suc 0" "association ex_s1 = None"
  by (simp_all add: ex_s1_def)

lemma data_association_unfold:
  assumes "map_of (landmark_indexes s) (col1 z) = Some idx"
    and "idx < length (landmark_observed s)"
  shows "data_association raises s z =
    (case scoring_loop raises (init_landmark s z idx) z (pose_of s)
            [1..<length (landmark_indexes s) + 1]
            (10 ^ 16, association (init_landmark s z idx)) of
       Inl e \<Rightarrow> Inl e
     | Inr (m, a) \<Rightarrow> Inr ((init_landmark s z idx)\<lparr>association := a\<rparr>))"
  using assms by (simp add: data_association_def Let_def)

lemma data_association_foreign:
  "map_of (landmark_indexes s) (col1 z) = None \<Longrightarrow> data_association raises s z = Inr s"
  by (simp add: data_association_def)

lemma ex_init_key: "map_of (landmark_indexes ex_init) (col1 ex_z) = Some (Suc 0)"
  by (simp add: ex_init_proj ex_z_def)

lemma ex_init_pose: "pose_of ex_init = (0, 0, 0)"
  by (simp add: pose_of_def ex_init_proj)

lemma ex_init_slots: "[1..<length (landmark_indexes ex_init) + 1] = [Suc 0]"
  by (simp add: ex_init_proj upt_evals)

lemma ex_loop:
  "scoring_loop ex_raises ex_s1 ex_z (0, 0, 0) [Suc 0] (10 ^ 16, None)
     = Inr (0, Some (ex_H, ex_Psi, [0, 0, 0]))"
  by (simp add: ex_s1_proj ex_q ex_cand ex_inv ex_maha)

lemma ex_da: "data_association ex_raises ex_init ex_z = Inr ex_s1a"
proof -
  have b: "Suc 0 < length (landmark_observed ex_init)"
    by (simp add: ex_init_proj)
  show ?thesis
    unfolding data_association_unfold [OF ex_init_key b] ex_init_pose ex_init_slots
      ex_s1_init ex_s1_proj ex_loop
    by (simp add: ex_s1a_def)
qed

lemma ex_mu: "measurement_update ex_raises ex_s1a ex_z = Inr ex_s2"
  apply (simp add: measurement_update_def ex_s1a_def ex_s1_def ex_z_def ex_inv Let_def dim_def
      kalman_gain_def corrected_state_def corrected_sigma_def)
  apply (simp add: ex_H_def ex_Psi_inv_def ex_sigma0_def)
  apply (simp add: arr_defs upt_evals)
  apply (simp add: ex_s2_def ex_sigma1_def ex_H_def)
  done

lemma ex_step: "step ex_raises ex_init ex_z = Inr ex_s2"
  by (simp add: step_def ex_da ex_mu) (simp add: ex_z_def)

subsection \<open>Prediction: the process noise\<close>

lemma ex_initR_val:
  "ex_initR = \<lparr>landmark_indexes = [(6, 1)], landmark_observed = [False, False],
     states = [[0, 0, 0, 0, 0]], stamps = [0], last_timestamp = 0, sigma = ex_sigma0,
     R = ex_Rsym, Q = ex_I3, association = None\<rparr>"
  by (simp add: ex_initR_def initialization_def ex_gt_def upt_rec ex_sigma0_def)

lemma ex_motion_sigma: "sigma (motion_update ex_initR ex_still) = ex_sigmaR"
  apply (simp add: motion_update_def predicted_sigma_def motion_jacobian_def ex_initR_val
      ex_still_def Let_def dim_def)
  apply (simp add: ex_sigma0_def ex_Rsym_def arr_defs upt_evals ex_sigmaR_def)
  done

lemma ex_motion_states:
  "states (motion_update ex_initR ex_still) = [[0, 0, 0, 0, 0], [0, 0, 0, 0, 0]]"
  by (simp add: motion_update_def predicted_state_def ex_initR_val ex_still_def Let_def
      wrap_theta_def)

text \<open>
  C2 at a symmetric \<open>R\<close> with \<open>R[0][1] = 1/2\<close>, for one motion event with \<open>v = 0\<close>,
  \<open>w = 0\<close>, \<open>delta_t = 1\<close>: the state is unchanged and the diagonal of the pose block
  grows by the diagonal of \<open>R\<close>, but the entry \<open>(0, 1)\<close> of the covariance stays what it
  was. Only \<open>R[0][0]\<close>, \<open>R[1][1]\<close> and \<open>R[2][2]\<close> are added.
\<close>

theorem motion_noise_diagonal_only:
  "last (states (motion_update ex_initR ex_still)) = last (states ex_initR) \<and>
   R ex_initR ! 0 ! 1 = 1 / 2 \<and>
   sigma (motion_update ex_initR ex_still) ! 0 ! 1 = sigma ex_initR ! 0 ! 1 \<and>
   sigma (motion_update ex_initR ex_still) ! 0 ! 0 = sigma ex_initR ! 0 ! 0 + R ex_initR ! 0 ! 0"
  by (simp add: ex_motion_sigma ex_motion_states)
     (simp add: ex_initR_val ex_sigmaR_def ex_sigma0_def ex_Rsym_def)

subsection \<open>What each method writes\<close>

lemma init_landmark_fields:
  "stamps (init_landmark s z i) = stamps s"
  "last_timestamp (init_landmark s z i) = last_timestamp s"
  "sigma (init_landmark s z i) = sigma s"
  "R (init_landmark s z i) = R s"
  "Q (init_landmark s z i) = Q s"
  "landmark_indexes (init_landmark s z i) = landmark_indexes s"
  "association (init_landmark s z i) = association s"
  "dim (init_landmark s z i) = dim s"
  by (simp_all add: init_landmark_def Let_def dim_def)

lemma init_landmark_history:
  "butlast (states (init_landmark s z i)) = butlast (states s)"
  "states s \<noteq> [] \<Longrightarrow> length (states (init_landmark s z i)) = length (states s)"
  "states s \<noteq> [] \<Longrightarrow> states (init_landmark s z i) \<noteq> []"
  by (auto simp: init_landmark_def Let_def)

lemma init_landmark_other:
  assumes "k \<noteq> 2 * i + 1" "k \<noteq> 2 * i + 2"
  shows "last (states (init_landmark s z i)) ! k = last (states s) ! k"
  using assms by (simp add: init_landmark_def Let_def)

lemma init_landmark_flags:
  "length (landmark_observed (init_landmark s z i)) = length (landmark_observed s)"
  "landmark_observed s ! j \<Longrightarrow> landmark_observed (init_landmark s z i) ! j"
  "i < length (landmark_observed s) \<Longrightarrow> landmark_observed (init_landmark s z i) ! i"
  "j \<noteq> i \<Longrightarrow> landmark_observed (init_landmark s z i) ! j = landmark_observed s ! j"
     apply (simp_all add: init_landmark_def Let_def)
  apply (cases "j = i"; cases "i < length (landmark_observed s)"; simp)
  done

lemma init_landmark_seen:
  "landmark_observed s ! i \<Longrightarrow> init_landmark s z i = s"
  by (simp add: init_landmark_def Let_def)

lemma data_association_cases:
  assumes "data_association raises s z = Inr s'"
  shows "(map_of (landmark_indexes s) (col1 z) = None \<and> s' = s) \<or>
         (\<exists>idx a. map_of (landmark_indexes s) (col1 z) = Some idx \<and>
                  idx < length (landmark_observed s) \<and>
                  s' = (init_landmark s z idx)\<lparr>association := a\<rparr>)"
proof (cases "map_of (landmark_indexes s) (col1 z)")
  case None
  with assms show ?thesis by (simp add: data_association_def)
next
  case (Some idx)
  with assms have b: "idx < length (landmark_observed s)"
    by (simp add: data_association_def split: if_splits)
  from assms obtain a where "s' = (init_landmark s z idx)\<lparr>association := a\<rparr>"
    unfolding data_association_unfold [OF Some b]
    by (auto split: sum.splits prod.splits)
  with Some b show ?thesis by blast
qed

lemma measurement_update_cases:
  assumes "measurement_update raises s z = Inr s'"
  shows "(map_of (landmark_indexes s) (col1 z) = None \<and> s' = s) \<or>
         (\<exists>idx H Psi d P. map_of (landmark_indexes s) (col1 z) = Some idx \<and>
            association s = Some (H, Psi, d) \<and> linalg_inv raises Psi = Inr P \<and>
            s' = s\<lparr>states := states s @ [corrected_state s (kalman_gain s H P) d],
                   last_timestamp := col0 z, stamps := stamps s @ [col0 z],
                   sigma := corrected_sigma s (kalman_gain s H P) H\<rparr>)"
  using assms
  by (auto simp: measurement_update_def split: option.splits sum.splits)

lemma motion_update_cases:
  "(col0 c - last_timestamp s < 1 / 1000 \<and> motion_update s c = s) \<or>
   (\<not> col0 c - last_timestamp s < 1 / 1000 \<and>
      motion_update s c =
        s\<lparr>states := states s @ [predicted_state s c (col0 c - last_timestamp s)],
           stamps := stamps s @ [col0 c], last_timestamp := col0 c,
           sigma := predicted_sigma s c (col0 c - last_timestamp s)\<rparr>)"
  by (simp add: motion_update_def Let_def)

lemma motion_update_fixed:
  "motion_update s c = s \<longleftrightarrow> col0 c - last_timestamp s < 1 / 1000"
proof
  assume eq: "motion_update s c = s"
  show "col0 c - last_timestamp s < 1 / 1000"
  proof (rule ccontr)
    assume "\<not> col0 c - last_timestamp s < 1 / 1000"
    then have "length (states (motion_update s c)) = Suc (length (states s))"
      by (simp add: motion_update_def Let_def)
    with eq show False by simp
  qed
next
  assume "col0 c - last_timestamp s < 1 / 1000"
  then show "motion_update s c = s" by (simp add: motion_update_def)
qed

subsection \<open>Timestamps\<close>

lemma stamps_aligned_init: "stamps_aligned (initialization li gt R0 Q0)"
  by (simp add: stamps_aligned_def initialization_def Let_def)

lemma stamps_aligned_motion: "stamps_aligned s \<Longrightarrow> stamps_aligned (motion_update s c)"
  using motion_update_cases [where s = s and c = c] by (auto simp: stamps_aligned_def)

lemma stamps_aligned_da:
  assumes "stamps_aligned s" "data_association raises s z = Inr s'"
  shows "stamps_aligned s'"
  using data_association_cases [OF assms(2)] assms(1)
  by (auto simp: stamps_aligned_def init_landmark_fields init_landmark_history)

lemma stamps_aligned_mu:
  assumes "stamps_aligned s" "measurement_update raises s z = Inr s'"
  shows "stamps_aligned s'"
  using measurement_update_cases [OF assms(2)] assms(1)
  by (auto simp: stamps_aligned_def)

lemma step_measurement:
  assumes "step raises s z = Inr s'" "col1 z \<noteq> - 1"
  shows "\<exists>s1. data_association raises s z = Inr s1 \<and> measurement_update raises s1 z = Inr s'"
  using assms by (auto simp: step_def split: sum.splits)

lemma stamps_aligned_step:
  assumes "stamps_aligned s" "step raises s d = Inr s'"
  shows "stamps_aligned s'"
proof (cases "col1 d = - 1")
  case True
  with assms show ?thesis by (auto simp: step_def stamps_aligned_motion)
next
  case False
  from step_measurement [OF assms(2) False] assms(1) show ?thesis
    by (auto intro: stamps_aligned_mu stamps_aligned_da)
qed

lemma stamps_aligned_run:
  "stamps_aligned s \<Longrightarrow> run raises s evs = Inr s' \<Longrightarrow> stamps_aligned s'"
proof (induction evs arbitrary: s)
  case Nil
  then show ?case by simp
next
  case (Cons d evs)
  then show ?case
    by (auto split: sum.splits dest: stamps_aligned_step)
qed

lemma data_association_indexes:
  "data_association raises s z = Inr s' \<Longrightarrow> landmark_indexes s' = landmark_indexes s"
  by (auto dest!: data_association_cases simp: init_landmark_fields)

lemma tracked_step_timestamp:
  assumes "step raises s z = Inr s'" "col1 z \<noteq> - 1" "map_of (landmark_indexes s) (col1 z) \<noteq> None"
  shows "last_timestamp s' = col0 z"
proof -
  from step_measurement [OF assms(1,2)] obtain s1
    where da: "data_association raises s z = Inr s1" and mu: "measurement_update raises s1 z = Inr s'"
    by blast
  from assms(3) data_association_indexes [OF da]
  have "map_of (landmark_indexes s1) (col1 z) \<noteq> None" by simp
  with measurement_update_cases [OF mu] show ?thesis by auto
qed

text \<open>
  C10. In every object that the event loop reaches from \<open>initialization\<close> with 3 x 3
  noise matrices there is one
  timestamp per state row and \<open>last_timestamp\<close> is the newest of them. A measurement
  of a tracked landmark that is processed sets \<open>last_timestamp\<close> to its own timestamp,
  so a following motion event is skipped exactly when its timestamp is less than 0.001
  after that measurement's.
\<close>

theorem stamps_track_states:
  assumes "is_mat 3 3 R0" and "is_mat 3 3 Q0"
    and "run raises (initialization li gt R0 Q0) evs = Inr s"
  shows "length (stamps s) = length (states s) \<and> last_timestamp s = last (stamps s) \<and>
         (col1 z \<noteq> - 1 \<and> map_of (landmark_indexes s) (col1 z) \<noteq> None \<and> step raises s z = Inr s'
            \<longrightarrow> length (stamps s') = length (states s') \<and> last_timestamp s' = col0 z \<and>
                (motion_update s' c = s' \<longleftrightarrow> col0 c - col0 z < 1 / 1000))"
proof -
  have a: "stamps_aligned s"
    using stamps_aligned_run [OF stamps_aligned_init assms(3)] .
  have "length (stamps s') = length (states s') \<and> last_timestamp s' = col0 z \<and>
        (motion_update s' c = s' \<longleftrightarrow> col0 c - col0 z < 1 / 1000)"
    if h: "col1 z \<noteq> - 1" "map_of (landmark_indexes s) (col1 z) \<noteq> None" "step raises s z = Inr s'"
  proof -
    have "stamps_aligned s'" using stamps_aligned_step [OF a h(3)] .
    moreover have "last_timestamp s' = col0 z"
      using tracked_step_timestamp [OF h(3) h(1) h(2)] .
    ultimately show ?thesis
      by (simp add: motion_update_fixed stamps_aligned_def)
  qed
  with a show ?thesis by (auto simp: stamps_aligned_def)
qed

theorem stamps_track_states_witness:
  "is_mat 3 3 ex_I3 \<and> run ex_raises (initialization [(6, 1)] ex_gt ex_I3 ex_I3) [] = Inr ex_init \<and>
   col1 ex_z \<noteq> - 1 \<and> map_of (landmark_indexes ex_init) (col1 ex_z) \<noteq> None \<and>
   step ex_raises ex_init ex_z = Inr ex_s2 \<and>
   length (stamps ex_init) = length (states ex_init) \<and>
   last_timestamp ex_init = last (stamps ex_init) \<and>
   length (stamps ex_s2) = length (states ex_s2) \<and> last_timestamp ex_s2 = col0 ex_z \<and>
   (motion_update ex_s2 ex_turn = ex_s2 \<longleftrightarrow> col0 ex_turn - col0 ex_z < 1 / 1000)"
proof -
  have r: "run ex_raises (initialization [(6, 1)] ex_gt ex_I3 ex_I3) [] = Inr ex_init"
    by (simp add: ex_init_def)
  have h: "col1 ex_z \<noteq> - 1" "map_of (landmark_indexes ex_init) (col1 ex_z) \<noteq> None"
    by (simp_all add: ex_z_def ex_init_proj)
  have m: "is_mat 3 3 ex_I3" by (simp add: is_mat_def ex_I3_def)
  show ?thesis
    using stamps_track_states [OF m m r, of ex_z ex_s2 ex_turn] m r h ex_step by blast
qed

subsection \<open>The state history\<close>

text \<open>
  C9 as stated fails: on the first sight of a landmark, data association writes into the
  newest row of the history instead of appending. The row \<open>[0, 0, 0, 0, 0]\<close> that
  \<open>initialization\<close> put there is \<open>[0, 0, 0, 2, 0]\<close> afterwards, and no row was added.
\<close>

theorem history_row_overwritten_counterexample:
  "states ex_init = [[0, 0, 0, 0, 0]] \<and> data_association ex_raises ex_init ex_z = Inr ex_s1a \<and>
   states ex_s1a = [[0, 0, 0, 2, 0]]"
  by (simp add: ex_da ex_init_proj) (simp add: ex_s1a_def ex_s1_def)

text \<open>
  C9 amended. In objects of the initialised shapes, motion update and correction only
  ever append one row to the history.
  Data association keeps the number of rows and every row but the newest; the newest
  row is rewritten only at the first sight of the measured landmark \<open>idx\<close>, and then
  only in its components \<open>2 idx + 1\<close> and \<open>2 idx + 2\<close>.
\<close>

theorem history_rows_kept:
  assumes "shapes_ok s" and "shapes_ok t"
  shows
  "(states (motion_update s c) = states s \<or> (\<exists>v. states (motion_update s c) = states s @ [v])) \<and>
   (measurement_update raises s z = Inr s' \<longrightarrow>
      states s' = states s \<or> (\<exists>v. states s' = states s @ [v])) \<and>
   (data_association raises t z = Inr t' \<longrightarrow>
      length (states t') = length (states t) \<and> butlast (states t') = butlast (states t) \<and>
      (states t' = states t \<or>
       (\<exists>idx. map_of (landmark_indexes t) (col1 z) = Some idx \<and> \<not> landmark_observed t ! idx \<and>
          (\<forall>k. k \<noteq> 2 * idx + 1 \<longrightarrow> k \<noteq> 2 * idx + 2 \<longrightarrow>
               last (states t') ! k = last (states t) ! k))))"
proof (intro conjI impI)
  show "states (motion_update s c) = states s \<or> (\<exists>v. states (motion_update s c) = states s @ [v])"
    using motion_update_cases [where s = s and c = c] by auto
next
  assume "measurement_update raises s z = Inr s'"
  from measurement_update_cases [OF this]
  show "states s' = states s \<or> (\<exists>v. states s' = states s @ [v])" by auto
next
  assume "data_association raises t z = Inr t'"
  with assms(2) have h: "states t \<noteq> [] \<and> data_association raises t z = Inr t'"
    by (simp add: shapes_ok_def)
  from data_association_cases [of raises t z t'] h
  show "length (states t') = length (states t)"
    by (auto simp: init_landmark_history)
next
  assume "data_association raises t z = Inr t'"
  with assms(2) have h: "states t \<noteq> [] \<and> data_association raises t z = Inr t'"
    by (simp add: shapes_ok_def)
  from data_association_cases [of raises t z t'] h
  show "butlast (states t') = butlast (states t)"
    by (auto simp: init_landmark_history)
next
  assume "data_association raises t z = Inr t'"
  with assms(2) have h: "states t \<noteq> [] \<and> data_association raises t z = Inr t'"
    by (simp add: shapes_ok_def)
  from data_association_cases [of raises t z t'] h
  consider "t' = t"
    | idx a where "map_of (landmark_indexes t) (col1 z) = Some idx"
        "t' = (init_landmark t z idx)\<lparr>association := a\<rparr>"
    by auto
  then show "states t' = states t \<or>
       (\<exists>idx. map_of (landmark_indexes t) (col1 z) = Some idx \<and> \<not> landmark_observed t ! idx \<and>
          (\<forall>k. k \<noteq> 2 * idx + 1 \<longrightarrow> k \<noteq> 2 * idx + 2 \<longrightarrow>
               last (states t') ! k = last (states t) ! k))"
  proof cases
    case 1
    then show ?thesis by simp
  next
    case 2
    show ?thesis
    proof (cases "landmark_observed t ! idx")
      case True
      with 2 show ?thesis by (simp add: init_landmark_seen)
    next
      case False
      with 2 show ?thesis by (auto simp: init_landmark_other)
    qed
  qed
qed

theorem history_rows_kept_witness:
  "shapes_ok ex_s1a \<and> shapes_ok ex_init \<and> measurement_update ex_raises ex_s1a ex_z = Inr ex_s2 \<and>
   data_association ex_raises ex_init ex_z = Inr ex_s1a \<and>
   (states (motion_update ex_s1a ex_turn) = states ex_s1a \<or>
     (\<exists>v. states (motion_update ex_s1a ex_turn) = states ex_s1a @ [v])) \<and>
   (states ex_s2 = states ex_s1a \<or> (\<exists>v. states ex_s2 = states ex_s1a @ [v])) \<and>
   length (states ex_s1a) = length (states ex_init) \<and>
   butlast (states ex_s1a) = butlast (states ex_init)"
proof -
  have n: "shapes_ok ex_s1a"
    by (simp add: shapes_ok_def is_mat_def dim_def ex_s1a_def ex_s1_def ex_sigma0_def ex_I3_def
        ex_H_def ex_Psi_def)
  show ?thesis
    using history_rows_kept [OF n ex_init_shapes, where c = ex_turn and z = ex_z
        and s' = ex_s2 and t' = ex_s1a] ex_mu ex_da n ex_init_shapes
    by blast
qed

subsection \<open>First sight of a landmark\<close>

lemma motion_update_flags: "landmark_observed (motion_update s c) = landmark_observed s"
  using motion_update_cases [where s = s and c = c] by auto

lemma measurement_update_flags:
  "measurement_update raises s z = Inr s' \<Longrightarrow> landmark_observed s' = landmark_observed s"
  by (auto dest!: measurement_update_cases)

lemma data_association_flags:
  "data_association raises s z = Inr s' \<Longrightarrow> landmark_observed s ! j \<Longrightarrow> landmark_observed s' ! j"
  by (auto dest!: data_association_cases simp: init_landmark_flags)

lemma step_flags:
  assumes "step raises s d = Inr s'" "landmark_observed s ! j"
  shows "landmark_observed s' ! j"
proof (cases "col1 d = - 1")
  case True
  with assms show ?thesis by (auto simp: step_def motion_update_flags)
next
  case False
  from step_measurement [OF assms(1) False] assms(2) show ?thesis
    by (auto simp: measurement_update_flags dest: data_association_flags)
qed

lemma run_flags:
  "run raises s evs = Inr s' \<Longrightarrow> landmark_observed s ! j \<Longrightarrow> landmark_observed s' ! j"
proof (induction evs arbitrary: s)
  case Nil
  then show ?case by simp
next
  case (Cons d evs)
  then show ?case
    by (auto split: sum.splits dest: step_flags)
qed

lemma init_landmark_estimate:
  assumes "shapes_ok s" "idx < length (landmark_observed s)" "\<not> landmark_observed s ! idx"
  shows "last (states (init_landmark s z idx)) ! (2 * idx + 1)
           = last (states s) ! 0 + col2 z * cos (col3 z + last (states s) ! 2)"
    and "last (states (init_landmark s z idx)) ! (2 * idx + 2)
           = last (states s) ! 1 + col2 z * sin (col3 z + last (states s) ! 2)"
proof -
  have "length (landmark_observed s) = length (landmark_indexes s) + 1"
    using assms(1) by (simp add: shapes_ok_def)
  with assms(2) shapes_last_length [OF assms(1)]
  have "2 * idx + 2 < length (last (states s))"
    by (simp add: dim_def)
  with assms(3) show "last (states (init_landmark s z idx)) ! (2 * idx + 1)
           = last (states s) ! 0 + col2 z * cos (col3 z + last (states s) ! 2)"
    and "last (states (init_landmark s z idx)) ! (2 * idx + 2)
           = last (states s) ! 1 + col2 z * sin (col3 z + last (states s) ! 2)"
    by (simp_all add: init_landmark_def Let_def)
qed

text \<open>
  C6. When a measurement names a tracked landmark \<open>idx\<close> whose flag is not yet set,
  data association writes \<open>x + r cos(b + theta)\<close> and \<open>y + r sin(b + theta)\<close>, taken
  from the current pose, into the landmark's two components of the newest state row and
  sets the landmark's flag. No other flag changes, and the flag stays set in every
  object the event loop reaches afterwards.
\<close>

theorem first_sight_initialises:
  assumes "shapes_ok s"
    and "map_of (landmark_indexes s) (col1 z) = Some idx"
    and "\<not> landmark_observed s ! idx"
    and "data_association raises s z = Inr s'"
  shows "last (states s') ! (2 * idx + 1)
           = last (states s) ! 0 + col2 z * cos (col3 z + last (states s) ! 2) \<and>
         last (states s') ! (2 * idx + 2)
           = last (states s) ! 1 + col2 z * sin (col3 z + last (states s) ! 2) \<and>
         landmark_observed s' ! idx \<and>
         (i \<noteq> idx \<longrightarrow> landmark_observed s' ! i = landmark_observed s ! i) \<and>
         (run raises s' evs = Inr s'' \<longrightarrow> landmark_observed s'' ! idx)"
proof -
  from data_association_cases [OF assms(4)] assms(2) obtain a
    where b: "idx < length (landmark_observed s)"
      and s': "s' = (init_landmark s z idx)\<lparr>association := a\<rparr>"
    by auto
  have f: "landmark_observed s' ! idx"
    using b by (simp add: s' init_landmark_flags)
  show ?thesis
    using init_landmark_estimate [OF assms(1) b assms(3), of z] f
    by (auto simp: s' init_landmark_flags dest: run_flags)
qed

theorem first_sight_initialises_witness:
  "shapes_ok ex_init \<and> map_of (landmark_indexes ex_init) (col1 ex_z) = Some (Suc 0) \<and>
   \<not> landmark_observed ex_init ! Suc 0 \<and> data_association ex_raises ex_init ex_z = Inr ex_s1a \<and>
   run ex_raises ex_s1a [ex_turn] = Inr (motion_update ex_s1a ex_turn) \<and>
   last (states ex_s1a) ! (2 * Suc 0 + 1)
     = last (states ex_init) ! 0 + col2 ex_z * cos (col3 ex_z + last (states ex_init) ! 2) \<and>
   last (states ex_s1a) ! (2 * Suc 0 + 2)
     = last (states ex_init) ! 1 + col2 ex_z * sin (col3 ex_z + last (states ex_init) ! 2) \<and>
   landmark_observed ex_s1a ! Suc 0 \<and>
   landmark_observed ex_s1a ! 0 = landmark_observed ex_init ! 0 \<and>
   landmark_observed (motion_update ex_s1a ex_turn) ! Suc 0"
proof -
  have u: "\<not> landmark_observed ex_init ! Suc 0" by (simp add: ex_init_proj)
  have r: "run ex_raises ex_s1a [ex_turn] = Inr (motion_update ex_s1a ex_turn)"
    by (simp add: step_def ex_turn_def)
  show ?thesis
    using first_sight_initialises [OF ex_init_shapes ex_init_key u ex_da,
        where i = 0 and evs = "[ex_turn]" and s'' = "motion_update ex_s1a ex_turn"]
      ex_init_shapes ex_init_key u ex_da r
    by simp
qed

subsection \<open>A singular innovation covariance\<close>

lemma scoring_loop_error:
  "scoring_loop raises s z pose slots acc = Inl e \<Longrightarrow> e = LinAlgError"
proof (induction slots arbitrary: acc)
  case Nil
  then show ?case by simp
next
  case (Cons i slots)
  obtain m a where acc: "acc = (m, a)" by (cases acc)
  from Cons.prems show ?case
    unfolding acc
    by (auto simp: linalg_inv_def split: if_splits sum.splits dest: Cons.IH)
qed

lemma scoring_loop_singular:
  assumes "i \<in> set slots" "landmark_observed s ! i" "q_of s pose i \<noteq> 0"
    and "raises (fst (snd (candidate s z pose i)))"
  shows "scoring_loop raises s z pose slots acc = Inl LinAlgError"
  using assms(1)
proof (induction slots arbitrary: acc)
  case Nil
  then show ?case by simp
next
  case (Cons j slots)
  obtain m a where acc: "acc = (m, a)" by (cases acc)
  show ?case
  proof (cases "j = i")
    case True
    with assms(2-4) show ?thesis
      by (simp add: acc linalg_inv_def)
  next
    case False
    with Cons.prems have "i \<in> set slots" by simp
    then show ?thesis
      by (simp add: acc Cons.IH linalg_inv_def)
  qed
qed

lemma ex_init0_val:
  "ex_init0 = \<lparr>landmark_indexes = [(6, 1)], landmark_observed = [False, False],
     states = [[0, 0, 0, 0, 0]], stamps = [0], last_timestamp = 0, sigma = ex_sigma0,
     R = ex_I3, Q = ex_Z3, association = None\<rparr>"
  by (simp add: ex_init0_def initialization_def ex_gt_def upt_rec ex_sigma0_def)

lemma ex_init0_facts:
  "map_of (landmark_indexes ex_init0) (col1 ex_z) = Some (Suc 0)"
  "Suc 0 < length (landmark_observed ex_init0)"
  "pose_of ex_init0 = (0, 0, 0)"
  "length (landmark_indexes ex_init0) = Suc 0"
  "init_landmark ex_init0 ex_z (Suc 0) = ex_s10"
  by (simp_all add: ex_init0_val ex_z_def pose_of_def init_landmark_def ex_s10_def)

lemma ex_s10_facts:
  "landmark_observed ex_s10 ! Suc 0" "q_of ex_s10 (0, 0, 0) (Suc 0) \<noteq> 0"
  by (simp_all add: ex_s10_def q_of_def delta_of_def)

lemma ex_jac0: "jacobian ex_s10 (0, 0, 0) (Suc 0) = ex_H"
  apply (simp add: jacobian_def delta_of_def ex_s10_def Let_def dim_def F_x_def)
  apply (simp add: arr_defs upt_evals ex_H_def)
  done

lemma ex_psi0: "innovation_cov ex_s10 ex_H = ex_Psi0"
  apply (simp add: innovation_cov_def ex_s10_def ex_H_def ex_sigma0_def ex_Z3_def)
  apply (simp add: arr_defs upt_evals ex_Psi0_def)
  done

lemma ex_det0: "det3 (innovation_cov ex_s10 (jacobian ex_s10 (0, 0, 0) (Suc 0))) = 0"
  by (simp add: ex_jac0 ex_psi0) (simp add: det3_def ex_Psi0_def)

lemma ex_raises0: "ex_raises (innovation_cov ex_s10 (jacobian ex_s10 (0, 0, 0) (Suc 0)))"
  by (simp add: ex_jac0 ex_psi0) (simp add: ex_raises_def ex_Psi0_def)

lemma ex_loop0:
  "scoring_loop ex_raises ex_s10 ex_z (0, 0, 0) [Suc 0] (10 ^ 16, None) = Inl LinAlgError"
  using ex_raises0 by (simp add: ex_s10_facts candidate_def linalg_inv_def)

text \<open>
  C4 as stated fails. With the zero matrix for \<open>Q\<close> the innovation covariance of the
  first measurement is singular, its last row being zero; the inversion raises, nothing
  catches it, and the event loop ends with the error instead of going on to the next row.
\<close>

theorem singular_innovation_counterexample:
  "det3 (innovation_cov ex_s10 (jacobian ex_s10 (0, 0, 0) (Suc 0))) = 0 \<and>
   data_association ex_raises ex_init0 ex_z = Inl LinAlgError \<and>
   run ex_raises ex_init0 [ex_z, ex_still] = Inl LinAlgError"
proof -
  have a: "association ex_s10 = None" by (simp add: ex_s10_def)
  have s: "[1..<length (landmark_indexes ex_init0) + 1] = [Suc 0]"
    by (simp add: ex_init0_facts upt_evals)
  have da: "data_association ex_raises ex_init0 ex_z = Inl LinAlgError"
    unfolding data_association_unfold [OF ex_init0_facts(1,2)] s ex_init0_facts(3,5) a ex_loop0
    by simp
  have "col1 ex_z \<noteq> - 1" by (simp add: ex_z_def)
  then show ?thesis
    using ex_det0 da by (simp add: step_def)
qed

text \<open>
  C4 amended. In an object of the initialised shapes, when \<open>np.linalg.inv\<close> raises
  \<open>LinAlgError\<close> for the innovation covariance of a landmark that the loop scores, the
  error is not caught: data association, the processing of that row and the whole event
  loop end with it, and no later row is processed.
\<close>

theorem singular_innovation_aborts:
  assumes "shapes_ok s"
    and "col1 z \<noteq> - 1"
    and "map_of (landmark_indexes s) (col1 z) = Some idx"
    and "idx < length (landmark_observed s)"
    and "1 \<le> i" and "i \<le> length (landmark_indexes s)"
    and "landmark_observed (init_landmark s z idx) ! i"
    and "q_of (init_landmark s z idx) (pose_of s) i \<noteq> 0"
    and "raises (innovation_cov (init_landmark s z idx)
                   (jacobian (init_landmark s z idx) (pose_of s) i))"
  shows "data_association raises s z = Inl LinAlgError \<and> step raises s z = Inl LinAlgError \<and>
         run raises s (z # rest) = Inl LinAlgError"
proof -
  have m: "i \<in> set [1..<length (landmark_indexes s) + 1]"
    using assms(5,6) by auto
  have d: "raises (fst (snd (candidate (init_landmark s z idx) z (pose_of s) i)))"
    using assms(9) by (simp add: candidate_def)
  have "data_association raises s z = Inl LinAlgError"
    unfolding data_association_unfold [OF assms(3,4)]
      scoring_loop_singular [where raises = raises, OF m assms(7,8) d]
    by simp
  with assms(2) show ?thesis by (simp add: step_def)
qed

theorem singular_innovation_aborts_witness:
  "shapes_ok ex_init0 \<and> col1 ex_z \<noteq> - 1 \<and> map_of (landmark_indexes ex_init0) (col1 ex_z) = Some (Suc 0) \<and>
   Suc 0 < length (landmark_observed ex_init0) \<and> Suc 0 \<le> length (landmark_indexes ex_init0) \<and>
   landmark_observed (init_landmark ex_init0 ex_z (Suc 0)) ! Suc 0 \<and>
   q_of (init_landmark ex_init0 ex_z (Suc 0)) (pose_of ex_init0) (Suc 0) \<noteq> 0 \<and>
   ex_raises (innovation_cov (init_landmark ex_init0 ex_z (Suc 0))
                (jacobian (init_landmark ex_init0 ex_z (Suc 0)) (pose_of ex_init0) (Suc 0))) \<and>
   step ex_raises ex_init0 ex_z = Inl LinAlgError \<and>
   run ex_raises ex_init0 [ex_z, ex_still] = Inl LinAlgError"
proof -
  have h1: "col1 ex_z \<noteq> - 1" by (simp add: ex_z_def)
  have h4: "1 \<le> Suc 0" by simp
  have h5: "Suc 0 \<le> length (landmark_indexes ex_init0)" by (simp add: ex_init0_facts)
  have h6: "landmark_observed (init_landmark ex_init0 ex_z (Suc 0)) ! Suc 0"
    by (simp add: ex_init0_facts ex_s10_facts)
  have h7: "q_of (init_landmark ex_init0 ex_z (Suc 0)) (pose_of ex_init0) (Suc 0) \<noteq> 0"
    by (simp add: ex_init0_facts ex_s10_facts)
  have h8: "ex_raises (innovation_cov (init_landmark ex_init0 ex_z (Suc 0))
           (jacobian (init_landmark ex_init0 ex_z (Suc 0)) (pose_of ex_init0) (Suc 0)))"
    by (simp add: ex_init0_facts ex_raises0)
  have h0: "shapes_ok ex_init0"
    by (simp add: ex_init0_val shapes_ok_def is_mat_def dim_def ex_sigma0_def ex_I3_def
        ex_Z3_def)
  show ?thesis
    using singular_innovation_aborts [where raises = ex_raises and rest = "[ex_still]",
        OF h0 h1 ex_init0_facts(1,2) h4 h5 h6 h7 h8]
      h0 h1 ex_init0_facts(1,2) h5 h6 h7 h8
    by blast
qed

subsection \<open>The landmark that data association selects\<close>

lemma scoring_loop_min:
  assumes "scoring_loop raises s z pose slots (m, a) = Inr (m', a')"
    and "sorted slots" and "distinct slots"
  shows "((\<forall>i\<in>set (scored s pose slots). m \<le> mahalanobis (candidate s z pose i))
            \<longrightarrow> m' = m \<and> a' = a) \<and>
         ((\<exists>i\<in>set (scored s pose slots). mahalanobis (candidate s z pose i) < m)
            \<longrightarrow> (\<exists>i\<in>set (scored s pose slots).
                   a' = Some (candidate s z pose i) \<and> m' = mahalanobis (candidate s z pose i) \<and>
                   mahalanobis (candidate s z pose i) < m \<and>
                   (\<forall>j\<in>set (scored s pose slots).
                      mahalanobis (candidate s z pose i) \<le> mahalanobis (candidate s z pose j) \<and>
                      (mahalanobis (candidate s z pose j) = mahalanobis (candidate s z pose i)
                         \<longrightarrow> i \<le> j))))"
  using assms
proof (induction slots arbitrary: m a)
  case Nil
  then show ?case by (simp add: scored_def)
next
  case (Cons x xs)
  let ?P = "\<lambda>i. mahalanobis (candidate s z pose i)"
  let ?C = "scored s pose xs"
  have srt: "sorted xs" "distinct xs" and low: "\<forall>j\<in>set xs. x \<le> j"
    using Cons.prems(2,3) by auto
  have sub: "set ?C \<subseteq> set xs" by (auto simp: scored_def)
  show ?case
  proof (cases "landmark_observed s ! x \<and> q_of s pose x \<noteq> 0")
    case False
    then have c: "scored s pose (x # xs) = ?C" by (auto simp: scored_def)
    from False Cons.prems(1) have "scoring_loop raises s z pose xs (m, a) = Inr (m', a')"
      by (auto split: if_splits)
    from Cons.IH [OF this srt] show ?thesis unfolding c .
  next
    case True
    then have c: "scored s pose (x # xs) = x # ?C" by (simp add: scored_def)
    show ?thesis
    proof (cases "?P x < m")
      case lt: True
      from True lt Cons.prems(1)
      have rn: "scoring_loop raises s z pose xs (?P x, Some (candidate s z pose x)) = Inr (m', a')"
        by (auto split: sum.splits)
      note ih = Cons.IH [OF rn srt]
      show ?thesis
      proof (cases "\<exists>i\<in>set ?C. ?P i < ?P x")
        case True
        with ih obtain i where i: "i \<in> set ?C" "a' = Some (candidate s z pose i)"
          "m' = ?P i" "?P i < ?P x"
          "\<forall>j\<in>set ?C. ?P i \<le> ?P j \<and> (?P j = ?P i \<longrightarrow> i \<le> j)"
          by blast
        have "\<forall>j\<in>set (x # ?C). ?P i \<le> ?P j \<and> (?P j = ?P i \<longrightarrow> i \<le> j)"
          using i(4,5) by auto
        with i lt show ?thesis unfolding c
          by (intro conjI impI) (auto intro!: bexI [where x = i])
      next
        case False
        then have all: "\<forall>i\<in>set ?C. ?P x \<le> ?P i" by (auto simp: not_less)
        with ih have r: "m' = ?P x" "a' = Some (candidate s z pose x)" by auto
        have "\<forall>j\<in>set (x # ?C). ?P x \<le> ?P j \<and> (?P j = ?P x \<longrightarrow> x \<le> j)"
          using all low sub by auto
        with r lt show ?thesis unfolding c
          by (intro conjI impI) (auto intro!: bexI [where x = x])
      qed
    next
      case ge: False
      from True ge Cons.prems(1)
      have rn: "scoring_loop raises s z pose xs (m, a) = Inr (m', a')"
        by (auto split: sum.splits)
      note ih = Cons.IH [OF rn srt]
      have first: "(\<forall>i\<in>set (x # ?C). m \<le> ?P i) \<longrightarrow> m' = m \<and> a' = a"
        using ih by auto
      have second: "\<exists>i\<in>set (x # ?C). a' = Some (candidate s z pose i) \<and> m' = ?P i \<and>
          ?P i < m \<and> (\<forall>j\<in>set (x # ?C). ?P i \<le> ?P j \<and> (?P j = ?P i \<longrightarrow> i \<le> j))"
        if "\<exists>i\<in>set (x # ?C). ?P i < m"
      proof -
        from that ge have "\<exists>i\<in>set ?C. ?P i < m" by auto
        with ih obtain i where i: "i \<in> set ?C" "a' = Some (candidate s z pose i)"
          "m' = ?P i" "?P i < m"
          "\<forall>j\<in>set ?C. ?P i \<le> ?P j \<and> (?P j = ?P i \<longrightarrow> i \<le> j)"
          by blast
        have "\<forall>j\<in>set (x # ?C). ?P i \<le> ?P j \<and> (?P j = ?P i \<longrightarrow> i \<le> j)"
          using i(4,5) ge by auto
        with i show ?thesis by (auto intro!: bexI [where x = i])
      qed
      from first second show ?thesis unfolding c by blast
    qed
  qed
qed

lemma ex_far_facts:
  "map_of (landmark_indexes ex_s2) (col1 ex_far) = Some (Suc 0)"
  "Suc 0 < length (landmark_observed ex_s2)"
  "pose_of ex_s2 = (0, 0, 0)"
  "landmark_observed ex_s2 ! Suc 0"
  "association ex_s2 = Some (ex_H, ex_Psi, [0, 0, 0])"
  "q_of ex_s2 (0, 0, 0) (Suc 0) \<noteq> 0"
  "[1..<length (landmark_indexes ex_s2) + 1] = [Suc 0]"
  by (simp_all add: ex_s2_def ex_far_def pose_of_def q_of_def delta_of_def upt_evals)

lemma ex_jac2: "jacobian ex_s2 (0, 0, 0) (Suc 0) = ex_H"
  apply (simp add: jacobian_def delta_of_def ex_s2_def Let_def dim_def F_x_def)
  apply (simp add: arr_defs upt_evals ex_H_def)
  done

lemma ex_psi2: "innovation_cov ex_s2 ex_H = ex_Psi2"
  apply (simp add: innovation_cov_def ex_s2_def ex_H_def ex_sigma1_def ex_I3_def)
  apply (simp add: arr_defs upt_evals ex_Psi2_def)
  done

lemma ex_d2: "difference_of ex_s2 ex_far (0, 0, 0) (Suc 0) = [1000000000, 0, 0]"
  by (simp add: difference_of_def range_expected_def bearing_expected_def q_of_def delta_of_def
      ex_s2_def ex_far_def arctan2_def)

lemma ex_cand2:
  "candidate ex_s2 ex_far (0, 0, 0) (Suc 0) = (ex_H, ex_Psi2, [1000000000, 0, 0])"
  by (simp add: candidate_def ex_jac2 ex_psi2 ex_d2)

lemma ex_inv2: "linalg_inv ex_raises ex_Psi2 = Inr (inv3 ex_Psi2)"
  by (simp add: linalg_inv_def ex_raises_def) (simp add: ex_Psi2_def)

lemma ex_maha2: "\<not> mahalanobis (ex_H, ex_Psi2, [1000000000, 0, 0]) < 10 ^ 16"
  apply (simp add: mahalanobis_def inv3_def adj3_def det3_def ex_Psi2_def)
  apply (simp add: vdot_def vdotm_def ncols_def upt_evals)
  done

lemma ex_loop2:
  "scoring_loop ex_raises ex_s2 ex_far (0, 0, 0) [Suc 0] (10 ^ 16, Some (ex_H, ex_Psi, [0, 0, 0]))
     = Inr (10 ^ 16, Some (ex_H, ex_Psi, [0, 0, 0]))"
  using ex_maha2 by (simp add: ex_far_facts ex_cand2 ex_inv2)

lemma ex_da2: "data_association ex_raises ex_s2 ex_far = Inr ex_s2"
  unfolding data_association_unfold [OF ex_far_facts(1,2)] ex_far_facts(3,7)
    init_landmark_seen [OF ex_far_facts(4)] ex_far_facts(5) ex_loop2
  by (simp add: ex_s2_def)

text \<open>
  C1 at a measurement whose distances are all at least \<open>10^16\<close>. After one measurement
  of the landmark at range 2 has been processed, a second one at range 1000000002 scores
  the only observed landmark with a distance that is not below the initial
  \<open>min_distance\<close> of \<open>10^16\<close>. The loop selects nothing, and the correction step is
  handed the \<open>H\<close>, \<open>Psi\<close> and \<open>difference\<close> of the previous measurement, not those of
  the landmark with the least distance.
\<close>

theorem association_keeps_previous_values:
  "step ex_raises ex_init ex_z = Inr ex_s2 \<and>
   map_of (landmark_indexes ex_s2) (col1 ex_far) = Some (Suc 0) \<and>
   scored_slots ex_s2 ex_far (Suc 0) = [Suc 0] \<and>
   slot_values ex_s2 ex_far (Suc 0) (Suc 0) = (ex_H, ex_Psi2, [1000000000, 0, 0]) \<and>
   data_association ex_raises ex_s2 ex_far = Inr ex_s2 \<and>
   association ex_s2 = Some (ex_H, ex_Psi, [0, 0, 0])"
proof -
  have c: "scored_slots ex_s2 ex_far (Suc 0) = [Suc 0]"
    unfolding scored_slots_def ex_far_facts(3,7) init_landmark_seen [OF ex_far_facts(4)]
    by (simp add: scored_def ex_far_facts)
  have v: "slot_values ex_s2 ex_far (Suc 0) (Suc 0) = (ex_H, ex_Psi2, [1000000000, 0, 0])"
    unfolding slot_values_def ex_far_facts(3) init_landmark_seen [OF ex_far_facts(4)]
    by (rule ex_cand2)
  show ?thesis
    using ex_step ex_far_facts(1,5) c v ex_da2 by simp
qed

text \<open>
  What the loop selects in general. For a measurement of a tracked landmark on which
  data association returns, in an object of the initialised shapes, let the scored
  landmarks be those whose flag is set (the measured one included) and that do not lie
  exactly on the robot. If none of them has a distance \<open>Pi\<close> below \<open>10^16\<close>, the
  attributes \<open>H\<close>, \<open>Psi\<close> and \<open>difference\<close> stay what they were. Otherwise they are the
  values of a scored landmark of least \<open>Pi\<close>, the one of lowest number among those of least
  \<open>Pi\<close>.
\<close>

theorem association_selects_minimum:
  assumes "shapes_ok s"
    and "map_of (landmark_indexes s) (col1 z) = Some idx"
    and "data_association raises s z = Inr s'"
  shows "(association s' = association s \<and>
          (\<forall>i\<in>set (scored_slots s z idx). 10 ^ 16 \<le> slot_distance s z idx i)) \<or>
         (\<exists>i\<in>set (scored_slots s z idx).
            association s' = Some (slot_values s z idx i) \<and> slot_distance s z idx i < 10 ^ 16 \<and>
            (\<forall>j\<in>set (scored_slots s z idx).
               slot_distance s z idx i \<le> slot_distance s z idx j \<and>
               (slot_distance s z idx j = slot_distance s z idx i \<longrightarrow> i \<le> j)))"
proof -
  let ?s1 = "init_landmark s z idx"
  from assms(2,3) have b: "idx < length (landmark_observed s)"
    by (simp add: data_association_def split: if_splits)
  from assms(3) obtain m' a'
    where loop: "scoring_loop raises ?s1 z (pose_of s) [1..<length (landmark_indexes s) + 1]
                   (10 ^ 16, association ?s1) = Inr (m', a')"
      and s': "s' = ?s1\<lparr>association := a'\<rparr>"
    unfolding data_association_unfold [OF assms(2) b]
    by (auto split: sum.splits prod.splits)
  have a: "association s' = a'" by (simp add: s')
  note min = scoring_loop_min [OF loop sorted_upt distinct_upt]
  show ?thesis
  proof (cases "\<exists>i\<in>set (scored_slots s z idx). slot_distance s z idx i < 10 ^ 16")
    case True
    with min show ?thesis
      unfolding a scored_slots_def slot_distance_def slot_values_def by blast
  next
    case False
    then have all: "\<forall>i\<in>set (scored_slots s z idx). 10 ^ 16 \<le> slot_distance s z idx i"
      by (auto simp: not_less)
    with min have "a' = association ?s1"
      unfolding scored_slots_def slot_distance_def slot_values_def by blast
    with all show ?thesis
      by (simp add: a init_landmark_fields)
  qed
qed

theorem association_selects_minimum_witness:
  "shapes_ok ex_init \<and> map_of (landmark_indexes ex_init) (col1 ex_z) = Some (Suc 0) \<and>
   data_association ex_raises ex_init ex_z = Inr ex_s1a \<and>
   scored_slots ex_init ex_z (Suc 0) = [Suc 0] \<and>
   slot_distance ex_init ex_z (Suc 0) (Suc 0) = 0 \<and>
   association ex_s1a = Some (slot_values ex_init ex_z (Suc 0) (Suc 0))"
proof -
  have c: "scored_slots ex_init ex_z (Suc 0) = [Suc 0]"
    unfolding scored_slots_def ex_init_slots ex_s1_init ex_init_pose
    by (simp add: scored_def ex_s1_proj ex_q)
  have d: "slot_distance ex_init ex_z (Suc 0) (Suc 0) = 0"
    by (simp add: slot_distance_def slot_values_def ex_s1_init ex_init_pose ex_cand ex_maha)
  have "association ex_s1a \<noteq> association ex_init"
    by (simp add: ex_s1a_def ex_init_proj)
  with association_selects_minimum [OF ex_init_shapes ex_init_key ex_da]
  have "association ex_s1a = Some (slot_values ex_init ex_z (Suc 0) (Suc 0))"
    by (auto simp: c)
  with ex_init_shapes ex_init_key ex_da c d show ?thesis by simp
qed

subsection \<open>A measurement that agrees with the estimate\<close>

lemma dotv_zero3: "i < length K \<Longrightarrow> dotv K [0, 0, 0] ! i = 0"
  by (simp add: dotv_def)

lemma length_dot: "length (dot A B) = length A"
  by (simp add: dot_def)

lemma length_kalman_gain: "length (kalman_gain s H P) = length (sigma s)"
  by (simp add: kalman_gain_def length_dot)

lemma corrected_state_zero:
  assumes "length (last (states s)) \<le> length K"
  shows "corrected_state s K [0, 0, 0] = last (states s)"
  using assms by (auto simp: corrected_state_def Let_def dotv_zero3 intro!: nth_equalityI)

lemma shapes_sigma_length: "shapes_ok s \<Longrightarrow> length (sigma s) = dim s"
  by (simp add: shapes_ok_def is_mat_def)

text \<open>
  Let a measurement name a tracked landmark that was seen before, let its range and
  bearing be the very numbers that the loop computes as expected for that landmark, and
  let data association match it to that landmark. Then the innovation vector is zero and
  the correction appends a state row equal to the current one.
\<close>

lemma zero_difference_fixed_point:
  assumes "shapes_ok s"
    and "map_of (landmark_indexes s) (col1 z) = Some idx"
    and "landmark_observed s ! idx"
    and "col2 z = range_expected s (pose_of s) idx"
    and "col3 z = bearing_expected s (pose_of s) idx"
    and "data_association raises s z = Inr s1"
    and "association s1 = Some (slot_values s z idx idx)"
    and "measurement_update raises s1 z = Inr s2"
  shows "difference_of s z (pose_of s) idx = [0, 0, 0] \<and>
         states s2 = states s @ [last (states s)] \<and>
         last (states s2) ! (2 * idx + 1) = last (states s) ! (2 * idx + 1) \<and>
         last (states s2) ! (2 * idx + 2) = last (states s) ! (2 * idx + 2)"
proof -
  have d: "difference_of s z (pose_of s) idx = [0, 0, 0]"
    using assms(4,5) by (simp add: difference_of_def)
  from data_association_cases [OF assms(6)] assms(2) obtain a
    where s1: "s1 = s\<lparr>association := a\<rparr>"
    by (auto simp: init_landmark_seen [OF assms(3)])
  have v: "slot_values s z idx idx
             = (jacobian s (pose_of s) idx, innovation_cov s (jacobian s (pose_of s) idx),
                [0, 0, 0])"
    by (simp add: slot_values_def init_landmark_seen [OF assms(3)] candidate_def d)
  have k: "map_of (landmark_indexes s1) (col1 z) = Some idx"
    using assms(2) by (simp add: s1)
  from measurement_update_cases [OF assms(8)] k assms(7) obtain K
    where s2: "states s2 = states s1 @ [corrected_state s1 K [0, 0, 0]]"
      and K: "length K = length (sigma s1)"
    unfolding v by (auto simp: length_kalman_gain)
  have "length (last (states s1)) \<le> length K"
    using shapes_last_length [OF assms(1)] shapes_sigma_length [OF assms(1)] K
    by (simp add: s1)
  from corrected_state_zero [OF this] s2
  have "states s2 = states s @ [last (states s)]"
    by (simp add: s1)
  with d show ?thesis by simp
qed

lemma ex_s2_shapes: "shapes_ok ex_s2"
  by (simp add: ex_s2_def shapes_ok_def is_mat_def dim_def ex_sigma1_def ex_I3_def ex_H_def
      ex_Psi_def)

lemma ex_again_facts:
  "map_of (landmark_indexes ex_s2) (col1 ex_again) = Some (Suc 0)"
  "col2 ex_again = range_expected ex_s2 (pose_of ex_s2) (Suc 0)"
  "col3 ex_again = bearing_expected ex_s2 (pose_of ex_s2) (Suc 0)"
  "difference_of ex_s2 ex_again (0, 0, 0) (Suc 0) = [0, 0, 0]"
  by (simp_all add: ex_s2_def ex_again_def pose_of_def range_expected_def bearing_expected_def
      difference_of_def q_of_def delta_of_def arctan2_def)

lemma ex_cand3: "candidate ex_s2 ex_again (0, 0, 0) (Suc 0) = (ex_H, ex_Psi2, [0, 0, 0])"
  by (simp add: candidate_def ex_jac2 ex_psi2 ex_again_facts)

lemma ex_maha3: "mahalanobis (ex_H, ex_Psi2, [0, 0, 0]) = 0"
  apply (simp add: mahalanobis_def inv3_def adj3_def det3_def ex_Psi2_def)
  apply (simp add: vdot_def vdotm_def ncols_def upt_evals)
  done

lemma ex_loop3:
  "scoring_loop ex_raises ex_s2 ex_again (0, 0, 0) [Suc 0] (10 ^ 16, Some (ex_H, ex_Psi, [0, 0, 0]))
     = Inr (0, Some (ex_H, ex_Psi2, [0, 0, 0]))"
  by (simp add: ex_far_facts ex_cand3 ex_inv2 ex_maha3)

lemma ex_da3: "data_association ex_raises ex_s2 ex_again = Inr ex_s2a"
  unfolding data_association_unfold [OF ex_again_facts(1) ex_far_facts(2)] ex_far_facts(3,7)
    init_landmark_seen [OF ex_far_facts(4)] ex_far_facts(5) ex_loop3
  by (simp add: ex_s2a_def)

lemma ex_mu3: "measurement_update ex_raises ex_s2a ex_again = Inr ex_s3"
proof -
  have k: "map_of (landmark_indexes ex_s2a) (col1 ex_again) = Some (Suc 0)"
    by (simp add: ex_s2a_def ex_s2_def ex_again_def)
  have a: "association ex_s2a = Some (ex_H, ex_Psi2, [0, 0, 0])"
    by (simp add: ex_s2a_def)
  show ?thesis
    by (simp add: measurement_update_def k a ex_inv2 ex_s3_def) (simp add: ex_again_def)
qed

lemma zero_difference_fixed_point_example:
  "shapes_ok ex_s2 \<and> map_of (landmark_indexes ex_s2) (col1 ex_again) = Some (Suc 0) \<and>
   landmark_observed ex_s2 ! Suc 0 \<and>
   col2 ex_again = range_expected ex_s2 (pose_of ex_s2) (Suc 0) \<and>
   col3 ex_again = bearing_expected ex_s2 (pose_of ex_s2) (Suc 0) \<and>
   data_association ex_raises ex_s2 ex_again = Inr ex_s2a \<and>
   association ex_s2a = Some (slot_values ex_s2 ex_again (Suc 0) (Suc 0)) \<and>
   measurement_update ex_raises ex_s2a ex_again = Inr ex_s3 \<and>
   states ex_s3 = states ex_s2 @ [last (states ex_s2)]"
proof -
  have v: "association ex_s2a = Some (slot_values ex_s2 ex_again (Suc 0) (Suc 0))"
    unfolding slot_values_def ex_far_facts(3) init_landmark_seen [OF ex_far_facts(4)] ex_cand3
    by (simp add: ex_s2a_def)
  show ?thesis
    using zero_difference_fixed_point [OF ex_s2_shapes ex_again_facts(1) ex_far_facts(4)
        ex_again_facts(2,3) ex_da3 v ex_mu3]
      ex_s2_shapes ex_again_facts(1,2,3) ex_far_facts(4) ex_da3 v ex_mu3
    by blast
qed

subsection \<open>A repeat measurement a full turn apart\<close>

lemma ex_init_pi_val:
  "ex_init_pi = \<lparr>landmark_indexes = [(6, 1)], landmark_observed = [False, False],
     states = [[0, 0, pi, 0, 0]], stamps = [0], last_timestamp = 0, sigma = ex_sigma0,
     R = ex_I3, Q = ex_I3, association = None\<rparr>"
  by (simp add: ex_init_pi_def initialization_def ex_gt_pi_def ex_I3_def upt_rec ex_sigma0_def)

lemma ex_init_pi_facts:
  "map_of (landmark_indexes ex_init_pi) (col1 ex_behind) = Some (Suc 0)"
  "Suc 0 < length (landmark_observed ex_init_pi)"
  "pose_of ex_init_pi = (0, 0, pi)"
  "[1..<length (landmark_indexes ex_init_pi) + 1] = [Suc 0]"
  "init_landmark ex_init_pi ex_behind (Suc 0) = ex_t1"
  by (simp_all add: ex_init_pi_val ex_behind_def pose_of_def upt_evals init_landmark_def
      ex_t1_def)

lemma ex_t1_facts:
  "landmark_observed ex_t1 ! Suc 0" "association ex_t1 = None"
  "q_of ex_t1 (0, 0, pi) (Suc 0) = 4"
  by (simp_all add: ex_t1_def q_of_def delta_of_def)

lemma ex_t1_jac: "jacobian ex_t1 (0, 0, pi) (Suc 0) = ex_H"
  apply (simp add: jacobian_def delta_of_def ex_t1_def Let_def dim_def F_x_def)
  apply (simp add: arr_defs upt_evals ex_H_def)
  done

lemma ex_t1_psi: "innovation_cov ex_t1 ex_H = ex_Psi"
  apply (simp add: innovation_cov_def ex_t1_def ex_H_def ex_sigma0_def ex_I3_def)
  apply (simp add: arr_defs upt_evals ex_Psi_def)
  done

lemma ex_t1_d: "difference_of ex_t1 ex_behind (0, 0, pi) (Suc 0) = [0, 0, 0]"
  by (simp add: difference_of_def range_expected_def bearing_expected_def q_of_def delta_of_def
      ex_t1_def ex_behind_def arctan2_def)

lemma ex_t1_cand: "candidate ex_t1 ex_behind (0, 0, pi) (Suc 0) = (ex_H, ex_Psi, [0, 0, 0])"
  by (simp add: candidate_def ex_t1_jac ex_t1_psi ex_t1_d)

lemma ex_t1_loop:
  "scoring_loop ex_raises ex_t1 ex_behind (0, 0, pi) [Suc 0] (10 ^ 16, None)
     = Inr (0, Some (ex_H, ex_Psi, [0, 0, 0]))"
  by (simp add: ex_t1_facts ex_t1_cand ex_inv ex_maha)

lemma ex_t1_da: "data_association ex_raises ex_init_pi ex_behind = Inr ex_t1a"
  unfolding data_association_unfold [OF ex_init_pi_facts(1,2)] ex_init_pi_facts(3,4,5)
    ex_t1_facts(2) ex_t1_loop
  by (simp add: ex_t1a_def)

lemma ex_t1_mu: "measurement_update ex_raises ex_t1a ex_behind = Inr ex_t2"
  apply (simp add: measurement_update_def ex_t1a_def ex_t1_def ex_behind_def ex_inv Let_def dim_def
      kalman_gain_def corrected_state_def corrected_sigma_def)
  apply (simp add: ex_H_def ex_Psi_inv_def ex_sigma0_def)
  apply (simp add: arr_defs upt_evals)
  apply (simp add: ex_t2_def ex_sigma1_def ex_H_def)
  done

lemma ex_t2_facts:
  "map_of (landmark_indexes ex_t2) (col1 ex_behind_again) = Some (Suc 0)"
  "Suc 0 < length (landmark_observed ex_t2)"
  "pose_of ex_t2 = (0, 0, pi)"
  "landmark_observed ex_t2 ! Suc 0"
  "association ex_t2 = Some (ex_H, ex_Psi, [0, 0, 0])"
  "q_of ex_t2 (0, 0, pi) (Suc 0) \<noteq> 0"
  "[1..<length (landmark_indexes ex_t2) + 1] = [Suc 0]"
  by (simp_all add: ex_t2_def ex_behind_again_def pose_of_def q_of_def delta_of_def upt_evals)

lemma ex_t2_jac: "jacobian ex_t2 (0, 0, pi) (Suc 0) = ex_H"
  apply (simp add: jacobian_def delta_of_def ex_t2_def Let_def dim_def F_x_def)
  apply (simp add: arr_defs upt_evals ex_H_def)
  done

lemma ex_t2_psi: "innovation_cov ex_t2 ex_H = ex_Psi2"
  apply (simp add: innovation_cov_def ex_t2_def ex_H_def ex_sigma1_def ex_I3_def)
  apply (simp add: arr_defs upt_evals ex_Psi2_def)
  done

lemma ex_t2_expected:
  "range_expected ex_t2 (0, 0, pi) (Suc 0) = 2"
  "bearing_expected ex_t2 (0, 0, pi) (Suc 0) = - pi"
  by (simp_all add: range_expected_def bearing_expected_def q_of_def delta_of_def
      ex_t2_def arctan2_def)

lemma ex_t2_d: "difference_of ex_t2 ex_behind_again (0, 0, pi) (Suc 0) = [0, 2 * pi, 0]"
  by (simp add: difference_of_def ex_t2_expected ex_behind_again_def)

lemma ex_t2_cand:
  "candidate ex_t2 ex_behind_again (0, 0, pi) (Suc 0) = (ex_H, ex_Psi2, [0, 2 * pi, 0])"
  by (simp add: candidate_def ex_t2_jac ex_t2_psi ex_t2_d)

lemma ex_t2_maha:
  "mahalanobis (ex_H, ex_Psi2, [0, 2 * pi, 0]) = 2000008000006 / 1000002000003 * (pi * pi)"
  apply (simp add: mahalanobis_def inv3_def adj3_def det3_def ex_Psi2_def)
  apply (simp add: vdot_def vdotm_def ncols_def upt_evals)
  done

lemma ex_t2_maha_small: "mahalanobis (ex_H, ex_Psi2, [0, 2 * pi, 0]) < 10 ^ 16"
proof -
  have "pi * pi < 4 * 4"
    using pi_less_4 pi_gt_zero by (intro mult_strict_mono) simp_all
  then show ?thesis
    unfolding ex_t2_maha by simp
qed

lemma ex_t2_loop:
  "scoring_loop ex_raises ex_t2 ex_behind_again (0, 0, pi) [Suc 0]
      (10 ^ 16, Some (ex_H, ex_Psi, [0, 0, 0]))
     = Inr (2000008000006 / 1000002000003 * (pi * pi), Some (ex_H, ex_Psi2, [0, 2 * pi, 0]))"
  using ex_t2_maha_small by (simp add: ex_t2_facts ex_t2_cand ex_inv2 ex_t2_maha)

lemma ex_t2_da: "data_association ex_raises ex_t2 ex_behind_again = Inr ex_t2a"
  unfolding data_association_unfold [OF ex_t2_facts(1,2)] ex_t2_facts(3,7)
    init_landmark_seen [OF ex_t2_facts(4)] ex_t2_facts(5) ex_t2_loop
  by (simp add: ex_t2a_def)

lemma ex_t2_mu: "measurement_update ex_raises ex_t2a ex_behind_again = Inr ex_t3"
proof -
  have k: "map_of (landmark_indexes ex_t2a) (col1 ex_behind_again) = Some (Suc 0)"
    by (simp add: ex_t2a_def ex_t2_def ex_behind_again_def)
  have a: "association ex_t2a = Some (ex_H, ex_Psi2, [0, 2 * pi, 0])"
    by (simp add: ex_t2a_def)
  show ?thesis
    by (simp add: measurement_update_def k a ex_inv2 ex_t3_def) (simp add: ex_behind_again_def)
qed

lemma ex_t3_last:
  "last (states ex_t3) =
     [- (4 * pi / 1000002000003), - (4 * pi / 1000002000003),
      1000001999999 * pi / 1000002000003, 2 - 4 * pi / 1000002000003,
      1999999999994 * pi / 1000002000003]"
  apply (simp add: ex_t3_def ex_t2a_def ex_t2_def corrected_state_def kalman_gain_def Let_def)
  apply (simp add: ex_H_def ex_sigma1_def inv3_def adj3_def det3_def ex_Psi2_def)
  apply (simp add: arr_defs upt_evals)
  done

text \<open>
  C8 at a repeat measurement whose bearing differs from the expected one by a full turn.
  The filter starts at heading \<open>pi\<close>. A first measurement at range 2 and bearing \<open>-pi\<close>
  places the landmark at \<open>(2, 0)\<close> and leaves the state as it is. With the robot at rest
  the landmark is measured again at range 2 and bearing \<open>pi\<close>, the same direction and the
  same distance. The expected bearing is \<open>arctan2 0 2 - pi = -pi\<close>, the difference
  \<open>bearing_t - bearing_expected\<close> is not brought back into \<open>[-pi, pi]\<close>, the innovation
  vector is \<open>(0, 2 pi, 0)\<close>, and the correction moves the pose and the landmark.
\<close>

theorem repeat_a_full_turn_apart_moves_estimate:
  "run ex_raises ex_init_pi [ex_behind] = Inr ex_t2 \<and>
   last (states ex_t2) = [0, 0, pi, 2, 0] \<and>
   col2 ex_behind_again = range_expected ex_t2 (pose_of ex_t2) (Suc 0) \<and>
   col3 ex_behind_again = bearing_expected ex_t2 (pose_of ex_t2) (Suc 0) + 2 * pi \<and>
   data_association ex_raises ex_t2 ex_behind_again = Inr ex_t2a \<and>
   association ex_t2a = Some (ex_H, ex_Psi2, [0, 2 * pi, 0]) \<and>
   measurement_update ex_raises ex_t2a ex_behind_again = Inr ex_t3 \<and>
   run ex_raises ex_init_pi [ex_behind, ex_behind_again] = Inr ex_t3 \<and>
   last (states ex_t3) =
     [- (4 * pi / 1000002000003), - (4 * pi / 1000002000003),
      1000001999999 * pi / 1000002000003, 2 - 4 * pi / 1000002000003,
      1999999999994 * pi / 1000002000003] \<and>
   last (states ex_t3) ! 4 \<noteq> last (states ex_t2) ! 4"
proof -
  have n1: "col1 ex_behind \<noteq> - 1" by (simp add: ex_behind_def)
  have n2: "col1 ex_behind_again \<noteq> - 1" by (simp add: ex_behind_again_def)
  have s1: "step ex_raises ex_init_pi ex_behind = Inr ex_t2"
    using n1 by (simp add: step_def ex_t1_da ex_t1_mu)
  have s2: "step ex_raises ex_t2 ex_behind_again = Inr ex_t3"
    using n2 by (simp add: step_def ex_t2_da ex_t2_mu)
  have r1: "run ex_raises ex_init_pi [ex_behind] = Inr ex_t2"
    by (simp add: s1)
  have r2: "run ex_raises ex_init_pi [ex_behind, ex_behind_again] = Inr ex_t3"
    by (simp add: s1 s2)
  have l2: "last (states ex_t2) = [0, 0, pi, 2, 0]"
    by (simp add: ex_t2_def)
  have e: "col2 ex_behind_again = range_expected ex_t2 (pose_of ex_t2) (Suc 0)"
    "col3 ex_behind_again = bearing_expected ex_t2 (pose_of ex_t2) (Suc 0) + 2 * pi"
    by (simp_all add: ex_t2_facts(3) ex_t2_expected ex_behind_again_def)
  have a: "association ex_t2a = Some (ex_H, ex_Psi2, [0, 2 * pi, 0])"
    by (simp add: ex_t2a_def)
  have m: "last (states ex_t3) ! 4 \<noteq> last (states ex_t2) ! 4"
    unfolding ex_t3_last l2 using pi_gt_zero by simp
  from r1 l2 e ex_t2_da a ex_t2_mu r2 ex_t3_last m show ?thesis
    by blast
qed

subsection \<open>Shapes and entries of the array operations\<close>

lemma symmetric_m_iff: "symmetric_m n A \<longleftrightarrow> (\<forall>i<n. \<forall>j<n. A ! i ! j = A ! j ! i)"
  by (auto simp: symmetric_m_def list_all_iff)

lemma is_mat_iff: "is_mat r c A \<longleftrightarrow> length A = r \<and> (\<forall>i<r. length (A ! i) = c)"
  by (auto simp: is_mat_def list_all_length)

lemma ncols_is_mat: "is_mat r c A \<Longrightarrow> 0 < r \<Longrightarrow> ncols A = c"
  by (cases A) (auto simp: is_mat_def ncols_def)

lemma sum_list_upt: "(\<Sum>k\<leftarrow>[0..<n]. f k) = sum f {..<n}"
  by (simp add: interv_sum_list_conv_sum_set_nat atLeast0LessThan)

lemma ncols_map_upt: "0 < n \<Longrightarrow> ncols (map f [0..<n]) = length (f 0)"
  by (simp add: ncols_def upt_conv_Cons)

lemma dot_nth:
  "i < length A \<Longrightarrow> j < ncols B \<Longrightarrow> dot A B ! i ! j = (\<Sum>k<length B. A ! i ! k * B ! k ! j)"
  by (simp add: dot_def sum_list_upt)

lemma ncols_dot: "0 < length A \<Longrightarrow> ncols (dot A B) = ncols B"
  by (simp add: dot_def ncols_map_upt)

lemma is_mat_dot: "is_mat (length A) (ncols B) (dot A B)"
  by (simp add: is_mat_iff dot_def)

lemma length_transp: "length (transp_m A) = ncols A"
  by (simp add: transp_m_def)

lemma ncols_transp: "0 < ncols A \<Longrightarrow> ncols (transp_m A) = length A"
  by (simp add: transp_m_def ncols_map_upt)

lemma transp_nth: "j < ncols A \<Longrightarrow> i < length A \<Longrightarrow> transp_m A ! j ! i = A ! i ! j"
  by (simp add: transp_m_def)

lemma length_identity: "length (identity n) = n"
  by (simp add: identity_def)

lemma ncols_identity: "0 < n \<Longrightarrow> ncols (identity n) = n"
  by (simp add: identity_def ncols_map_upt)

lemma identity_nth: "i < n \<Longrightarrow> j < n \<Longrightarrow> identity n ! i ! j = (if i = j then 1 else 0)"
  by (simp add: identity_def)

lemma is_mat_identity: "is_mat n n (identity n)"
  by (simp add: is_mat_iff identity_def)

lemma length_madd: "length (madd A B) = length A"
  by (simp add: madd_def)

lemma madd_nth: "i < length A \<Longrightarrow> j < ncols A \<Longrightarrow> madd A B ! i ! j = A ! i ! j + B ! i ! j"
  by (simp add: madd_def)

lemma is_mat_madd: "is_mat (length A) (ncols A) (madd A B)"
  by (simp add: is_mat_iff madd_def)

lemma length_msub: "length (msub A B) = length A"
  by (simp add: msub_def)

lemma ncols_msub: "0 < length A \<Longrightarrow> ncols (msub A B) = ncols A"
  by (simp add: msub_def ncols_map_upt)

lemma msub_nth: "i < length A \<Longrightarrow> j < ncols A \<Longrightarrow> msub A B ! i ! j = A ! i ! j - B ! i ! j"
  by (simp add: msub_def)

lemma is_mat_set2: "is_mat r c A \<Longrightarrow> is_mat r c (set2 A i j v)"
  by (cases "i < length A") (auto simp: is_mat_iff set2_def nth_list_update)

lemma set2_nth:
  assumes "a < length A"
  shows "set2 A i j v ! a ! b = (if a = i then (A ! i)[j := v] ! b else A ! a ! b)"
  using assms by (simp add: set2_def nth_list_update)

lemma set2_diag_symmetric:
  assumes "is_mat n n A" "symmetric_m n A"
  shows "symmetric_m n (set2 A i i v)"
proof -
  have "set2 A i i v ! a ! b = set2 A i i v ! b ! a" if "a < n" "b < n" for a b
  proof -
    have l: "length A = n" "length (A ! i) = n" if "i < n"
      using assms(1) that by (simp_all add: is_mat_iff)
    have s: "A ! a ! b = A ! b ! a"
      using assms(2) that by (simp add: symmetric_m_iff)
    show ?thesis
      using that l s assms(1)
      by (auto simp: set2_nth is_mat_iff nth_list_update)
  qed
  then show ?thesis by (simp add: symmetric_m_iff)
qed

subsection \<open>Symmetry of the two covariance updates\<close>

lemma congruence_entry:
  assumes "is_mat m n A" "is_mat n n S" "0 < n" "i < m" "j < m"
  shows "dot (dot A S) (transp_m A) ! i ! j
           = (\<Sum>k<n. \<Sum>l<n. A ! i ! l * S ! l ! k * A ! j ! k)"
proof -
  have lA: "length A = m" and cA: "ncols A = n"
    using assms(1,4) ncols_is_mat [OF assms(1)] by (auto simp: is_mat_iff)
  have lS: "length S = n" and cS: "ncols S = n"
    using assms(2,3) ncols_is_mat [OF assms(2)] by (auto simp: is_mat_iff)
  have "dot (dot A S) (transp_m A) ! i ! j
          = (\<Sum>k<n. dot A S ! i ! k * transp_m A ! k ! j)"
    using assms(3-5) by (simp add: dot_nth length_dot lA ncols_transp cA length_transp)
  also have "\<dots> = (\<Sum>k<n. (\<Sum>l<n. A ! i ! l * S ! l ! k) * A ! j ! k)"
    using assms(4,5) by (intro sum.cong) (simp_all add: dot_nth lA cS lS transp_nth cA)
  finally show ?thesis by (simp add: sum_distrib_right)
qed

lemma congruence_symmetric:
  assumes "is_mat m n A" "is_mat n n S" "symmetric_m n S" "0 < n"
  shows "symmetric_m m (dot (dot A S) (transp_m A))"
proof -
  have "dot (dot A S) (transp_m A) ! i ! j = dot (dot A S) (transp_m A) ! j ! i"
    if "i < m" "j < m" for i j
  proof -
    have "(\<Sum>k<n. \<Sum>l<n. A ! i ! l * S ! l ! k * A ! j ! k)
            = (\<Sum>k<n. \<Sum>l<n. A ! i ! k * S ! k ! l * A ! j ! l)"
      by (rule sum.swap)
    also have "\<dots> = (\<Sum>k<n. \<Sum>l<n. A ! j ! l * S ! l ! k * A ! i ! k)"
      using assms(3) by (intro sum.cong) (simp_all add: symmetric_m_iff)
    finally show ?thesis
      using that by (simp add: congruence_entry [OF assms(1,2,4)])
  qed
  then show ?thesis by (simp add: symmetric_m_iff)
qed

lemma congruence_shape:
  assumes "is_mat m n A" "0 < n" "0 < m"
  shows "is_mat m m (dot (dot A S) (transp_m A))"
proof -
  have "length A = m" "ncols A = n"
    using assms ncols_is_mat [OF assms(1)] by (auto simp: is_mat_iff)
  with is_mat_dot [of "dot A S" "transp_m A"] assms(2) show ?thesis
    by (simp add: length_dot ncols_transp)
qed

lemma inv3_symmetric:
  assumes "symmetric_m 3 M"
  shows "symmetric_m 3 (inv3 M)"
proof -
  from assms have "M ! 0 ! 1 = M ! 1 ! 0" "M ! 0 ! 2 = M ! 2 ! 0" "M ! 1 ! 2 = M ! 2 ! 1"
    by (simp_all add: symmetric_m_iff)
  then show ?thesis
    by (simp add: symmetric_m_def upt_evals inv3_def adj3_def mult.commute)
qed

lemma inv3_shape: "is_mat 3 3 (inv3 M)"
  by (simp add: is_mat_def inv3_def adj3_def)

lemma sum3: "(\<Sum>k<3. f k) = f 0 + f 1 + f (2::nat)"
  by (simp add: numeral_3_eq_3 numeral_2_eq_2)

lemma correction_entry:
  assumes S: "is_mat n n S" "symmetric_m n S" and H: "is_mat 3 n H" and P: "is_mat 3 3 P"
    and n: "0 < n" and i: "i < n" and j: "j < n"
  shows "dot (msub (identity n) (dot (dot (dot S (transp_m H)) P) H)) S ! i ! j
           = S ! i ! j - (\<Sum>b<3. (\<Sum>a<3. dot S (transp_m H) ! i ! a * P ! a ! b)
                                     * dot S (transp_m H) ! j ! b)"
proof -
  define U where "U = dot S (transp_m H)"
  define K where "K = dot U P"
  have lS: "length S = n" and cS: "ncols S = n"
    using S(1) n ncols_is_mat [OF S(1)] by (auto simp: is_mat_iff)
  have lH: "length H = 3" and cH: "ncols H = n"
    using H ncols_is_mat [OF H] by (auto simp: is_mat_iff)
  have lP: "length P = 3" and cP: "ncols P = 3"
    using P ncols_is_mat [OF P] by (auto simp: is_mat_iff)
  have lU: "length U = n" and cU: "ncols U = 3"
    using n by (simp_all add: U_def length_dot lS ncols_dot ncols_transp cH lH)
  have lK: "length K = n" and cK: "ncols K = 3"
    using n by (simp_all add: K_def length_dot lU ncols_dot cP)
  have U: "U ! r ! b = (\<Sum>k<n. S ! r ! k * H ! b ! k)" if "r < n" "b < 3" for r b
    using that n unfolding U_def
    by (simp add: dot_nth lS ncols_transp cH lH length_transp transp_nth)
  have K: "K ! r ! b = (\<Sum>a<3. U ! r ! a * P ! a ! b)" if "r < n" "b < 3" for r b
    using that unfolding K_def by (simp add: dot_nth lU cP lP)
  have KH: "dot K H ! i ! k = (\<Sum>b<3. K ! i ! b * H ! b ! k)" if "k < n" for k
    using that i by (simp add: dot_nth lK cH lH)
  have W: "(\<Sum>k<n. H ! b ! k * S ! k ! j) = U ! j ! b" if "b < 3" for b
  proof -
    have "(\<Sum>k<n. H ! b ! k * S ! k ! j) = (\<Sum>k<n. S ! j ! k * H ! b ! k)"
      using S(2) j by (intro sum.cong) (simp_all add: symmetric_m_iff mult.commute)
    then show ?thesis using U [OF j that] by simp
  qed
  have "dot (msub (identity n) (dot K H)) S ! i ! j
          = (\<Sum>k<n. msub (identity n) (dot K H) ! i ! k * S ! k ! j)"
    using i j by (simp add: dot_nth length_msub length_identity cS lS)
  also have "\<dots> = (\<Sum>k<n. ((if i = k then 1 else 0) - dot K H ! i ! k) * S ! k ! j)"
    using i n
    by (intro sum.cong) (simp_all add: msub_nth length_identity ncols_identity identity_nth)
  also have "\<dots> = (\<Sum>k<n. (if i = k then 1 else 0) * S ! k ! j)
                   - (\<Sum>k<n. dot K H ! i ! k * S ! k ! j)"
    by (simp add: left_diff_distrib sum_subtractf)
  also have "(\<Sum>k<n. (if i = k then 1 else 0) * S ! k ! j) = S ! i ! j"
  proof -
    have "(\<Sum>k<n. (if i = k then 1 else 0) * S ! k ! j)
            = (\<Sum>k<n. if k = i then S ! k ! j else 0)"
      by (intro sum.cong) auto
    also have "\<dots> = S ! i ! j"
      using i by (simp add: sum.delta)
    finally show ?thesis .
  qed
  also have "(\<Sum>k<n. dot K H ! i ! k * S ! k ! j)
               = (\<Sum>k<n. (\<Sum>b<3. K ! i ! b * H ! b ! k) * S ! k ! j)"
    by (intro sum.cong) (simp_all add: KH)
  also have "\<dots> = (\<Sum>b<3. K ! i ! b * (\<Sum>k<n. H ! b ! k * S ! k ! j))"
    by (simp add: sum3 distrib_right sum.distrib sum_distrib_left mult.assoc)
  also have "\<dots> = (\<Sum>b<3. K ! i ! b * U ! j ! b)"
    by (intro sum.cong) (simp_all add: W)
  also have "\<dots> = (\<Sum>b<3. (\<Sum>a<3. U ! i ! a * P ! a ! b) * U ! j ! b)"
    using i by (intro sum.cong) (simp_all add: K)
  finally show ?thesis by (simp add: K_def U_def)
qed

lemma correction_symmetric:
  assumes S: "is_mat n n S" "symmetric_m n S" and H: "is_mat 3 n H" and P: "is_mat 3 3 P"
    and sP: "symmetric_m 3 P" and n: "0 < n"
  shows "symmetric_m n (dot (msub (identity n) (dot (dot (dot S (transp_m H)) P) H)) S)"
proof -
  from sP have p: "P ! 0 ! Suc 0 = P ! Suc 0 ! 0" "P ! 0 ! 2 = P ! 2 ! 0"
    "P ! Suc 0 ! 2 = P ! 2 ! Suc 0"
    by (simp_all add: symmetric_m_iff)
  have "dot (msub (identity n) (dot (dot (dot S (transp_m H)) P) H)) S ! i ! j
          = dot (msub (identity n) (dot (dot (dot S (transp_m H)) P) H)) S ! j ! i"
    if "i < n" "j < n" for i j
  proof -
    have s: "S ! i ! j = S ! j ! i"
      using S(2) that by (simp add: symmetric_m_iff)
    show ?thesis
      unfolding correction_entry [OF S H P n that] correction_entry [OF S H P n that(2,1)]
      by (simp add: sum3 s p algebra_simps)
  qed
  then show ?thesis by (simp add: symmetric_m_iff)
qed

lemma correction_shape:
  assumes "is_mat n n S" "0 < n"
  shows "is_mat n n (dot (msub (identity n) B) S)"
  using is_mat_dot [of "msub (identity n) B" S] ncols_is_mat [OF assms]
  by (simp add: length_msub length_identity)

subsection \<open>The covariance stays symmetric\<close>

lemma dim_pos: "0 < dim s"
  by (simp add: dim_def)

lemma is_mat_dotI: "length A = r \<Longrightarrow> ncols B = c \<Longrightarrow> is_mat r c (dot A B)"
  using is_mat_dot [of A B] by simp

lemma jacobian_shape: "is_mat 3 (dim s) (jacobian s pose i)"
proof -
  have "ncols (F_x (dim s) i) = dim s"
    by (simp add: F_x_def ncols_map_upt)
  then show ?thesis
    by (auto simp: jacobian_def Let_def split: prod.splits intro!: is_mat_dotI)
qed

lemma innovation_cov_shape:
  assumes "is_mat 3 (dim s) H"
  shows "is_mat 3 3 (innovation_cov s H)"
proof -
  have "length H = 3" "ncols H = dim s"
    using assms ncols_is_mat [OF assms] by (auto simp: is_mat_iff)
  with is_mat_madd [of "dot (dot H (sigma s)) (transp_m H)" "Q s"] dim_pos [of s]
  show ?thesis
    by (simp add: innovation_cov_def length_dot ncols_dot ncols_transp)
qed

lemma innovation_cov_symmetric:
  assumes "is_mat 3 (dim s) H" "is_mat (dim s) (dim s) (sigma s)"
    and "symmetric_m (dim s) (sigma s)" "symmetric_m 3 (Q s)"
  shows "symmetric_m 3 (innovation_cov s H)"
proof -
  let ?X = "dot (dot H (sigma s)) (transp_m H)"
  have x: "is_mat 3 3 ?X"
    using congruence_shape [OF assms(1) dim_pos] by simp
  then have l: "length ?X = 3" "ncols ?X = 3"
    using ncols_is_mat [OF x] by (auto simp: is_mat_iff)
  have "symmetric_m 3 ?X"
    using congruence_symmetric [OF assms(1,2,3) dim_pos] .
  with assms(4) show ?thesis
    by (simp add: symmetric_m_iff innovation_cov_def madd_nth l)
qed

lemma motion_jacobian_shape: "is_mat (dim s) (dim s) (motion_jacobian s c dt)"
  by (simp add: motion_jacobian_def is_mat_set2 is_mat_identity)

lemma predicted_sigma_ok:
  assumes "is_mat (dim s) (dim s) (sigma s)" "symmetric_m (dim s) (sigma s)"
  shows "is_mat (dim s) (dim s) (predicted_sigma s c dt) \<and>
         symmetric_m (dim s) (predicted_sigma s c dt)"
proof -
  let ?G = "motion_jacobian s c dt"
  let ?X = "dot (dot ?G (sigma s)) (transp_m ?G)"
  have "is_mat (dim s) (dim s) ?X"
    using congruence_shape [OF motion_jacobian_shape dim_pos dim_pos] .
  moreover have "symmetric_m (dim s) ?X"
    using congruence_symmetric [OF motion_jacobian_shape assms dim_pos] .
  ultimately show ?thesis
    by (simp add: predicted_sigma_def Let_def is_mat_set2 set2_diag_symmetric)
qed

lemma predicted_state_length: "length (predicted_state s c dt) = length (last (states s))"
  by (simp add: predicted_state_def Let_def)

lemma corrected_state_length: "length (corrected_state s K d) = length (last (states s))"
  by (simp add: corrected_state_def Let_def)

lemma shapes_okD:
  assumes "shapes_ok s"
  shows "states s \<noteq> []" "list_all (\<lambda>v. length v = dim s) (states s)"
    "length (landmark_observed s) = length (landmark_indexes s) + 1"
    "is_mat (dim s) (dim s) (sigma s)" "is_mat 3 3 (R s)" "is_mat 3 3 (Q s)"
  using assms by (simp_all add: shapes_ok_def)

lemma cov_ok_motion:
  assumes "cov_ok s"
  shows "cov_ok (motion_update s c)"
proof -
  from assms have sh: "shapes_ok s" and sy: "symmetric_m (dim s) (sigma s)"
    by (simp_all add: cov_ok_def)
  note p = predicted_sigma_ok [OF shapes_okD(4) [OF sh] sy, of c "col0 c - last_timestamp s"]
  from motion_update_cases [where s = s and c = c] show ?thesis
  proof
    assume "col0 c - last_timestamp s < 1 / 1000 \<and> motion_update s c = s"
    with assms show ?thesis by simp
  next
    assume "\<not> col0 c - last_timestamp s < 1 / 1000 \<and>
      motion_update s c =
        s\<lparr>states := states s @ [predicted_state s c (col0 c - last_timestamp s)],
           stamps := stamps s @ [col0 c], last_timestamp := col0 c,
           sigma := predicted_sigma s c (col0 c - last_timestamp s)\<rparr>"
    then have m: "motion_update s c =
        s\<lparr>states := states s @ [predicted_state s c (col0 c - last_timestamp s)],
           stamps := stamps s @ [col0 c], last_timestamp := col0 c,
           sigma := predicted_sigma s c (col0 c - last_timestamp s)\<rparr>" ..
    show ?thesis
      using assms p shapes_last_length [OF sh]
      unfolding m
      by (auto simp: cov_ok_def shapes_ok_def dim_def predicted_state_length
          split: option.splits)
  qed
qed

lemma init_landmark_shapes:
  assumes "shapes_ok s" "idx < length (landmark_observed s)"
  shows "shapes_ok (init_landmark s z idx)"
proof (cases "landmark_observed s ! idx")
  case True
  with assms(1) show ?thesis by (simp add: init_landmark_seen)
next
  case False
  have "list_all (\<lambda>v. length v = dim s) (butlast (states s))"
    using shapes_okD(2) [OF assms(1)] by (auto simp: list_all_iff dest: in_set_butlastD)
  with False assms(1) shapes_last_length [OF assms(1)] show ?thesis
    by (auto simp: init_landmark_def Let_def shapes_ok_def dim_def split: option.splits)
qed

lemma scoring_loop_assoc:
  "scoring_loop raises s z pose slots (m, a) = Inr (m', a') \<Longrightarrow>
     a' = a \<or> (\<exists>i. a' = Some (candidate s z pose i))"
proof (induction slots arbitrary: m a)
  case Nil
  then show ?case by simp
next
  case (Cons x xs)
  from Cons.prems show ?case
    by (auto split: if_splits sum.splits dest: Cons.IH)
qed

lemma candidate_ok:
  assumes "cov_ok s"
  shows "case candidate s z pose i of (H, Psi, d) \<Rightarrow>
           is_mat 3 (dim s) H \<and> is_mat 3 3 Psi \<and> length d = 3 \<and> symmetric_m 3 Psi"
proof -
  from assms have sh: "shapes_ok s" and sy: "symmetric_m (dim s) (sigma s)"
    and q: "symmetric_m 3 (Q s)"
    by (simp_all add: cov_ok_def)
  show ?thesis
    using jacobian_shape [of s pose i]
      innovation_cov_shape [OF jacobian_shape, of s pose i]
      innovation_cov_symmetric [OF jacobian_shape shapes_okD(4) [OF sh] sy q, of pose i]
    by (simp add: candidate_def difference_of_def)
qed

lemma cov_ok_da:
  assumes "cov_ok s" "data_association raises s z = Inr s'"
  shows "cov_ok s'"
proof (cases "map_of (landmark_indexes s) (col1 z)")
  case None
  with assms show ?thesis by (simp add: data_association_foreign)
next
  case (Some idx)
  let ?s1 = "init_landmark s z idx"
  from assms(2) Some have b: "idx < length (landmark_observed s)"
    by (simp add: data_association_def split: if_splits)
  from assms(2) obtain m' a'
    where loop: "scoring_loop raises ?s1 z (pose_of s) [1..<length (landmark_indexes s) + 1]
                   (10 ^ 16, association ?s1) = Inr (m', a')"
      and s': "s' = ?s1\<lparr>association := a'\<rparr>"
    unfolding data_association_unfold [OF Some b]
    by (auto split: sum.splits prod.splits)
  have c1: "cov_ok ?s1"
    using assms(1) init_landmark_shapes [OF _ b, of z]
    by (simp add: cov_ok_def init_landmark_fields)
  from scoring_loop_assoc [OF loop] show ?thesis
  proof
    assume "a' = association ?s1"
    with c1 show ?thesis by (simp add: s')
  next
    assume "\<exists>i. a' = Some (candidate ?s1 z (pose_of s) i)"
    then obtain i where a': "a' = Some (candidate ?s1 z (pose_of s) i)" ..
    from candidate_ok [OF c1, of z "pose_of s" i] c1 show ?thesis
      by (auto simp: s' a' cov_ok_def shapes_ok_def dim_def split: prod.splits)
  qed
qed

lemma cov_ok_mu:
  assumes "cov_ok s" "measurement_update raises s z = Inr s'"
  shows "cov_ok s'"
  using measurement_update_cases [OF assms(2)]
proof (elim disjE exE conjE)
  assume "s' = s"
  with assms(1) show ?thesis by simp
next
  fix idx H Psi d P
  assume a: "association s = Some (H, Psi, d)" and p: "linalg_inv raises Psi = Inr P"
    and s': "s' = s\<lparr>states := states s @ [corrected_state s (kalman_gain s H P) d],
                   last_timestamp := col0 z, stamps := stamps s @ [col0 z],
                   sigma := corrected_sigma s (kalman_gain s H P) H\<rparr>"
  from assms(1) have sh: "shapes_ok s" and sy: "symmetric_m (dim s) (sigma s)"
    by (simp_all add: cov_ok_def)
  from assms(1) a have h: "is_mat 3 (dim s) H" and ps: "symmetric_m 3 Psi"
    by (simp_all add: cov_ok_def shapes_ok_def)
  from p have P: "P = inv3 Psi"
    by (simp add: linalg_inv_def split: if_splits)
  have "symmetric_m (dim s) (corrected_sigma s (kalman_gain s H P) H)"
    unfolding corrected_sigma_def kalman_gain_def P
    using correction_symmetric [OF shapes_okD(4) [OF sh] sy h inv3_shape
        inv3_symmetric [OF ps] dim_pos] .
  moreover have "is_mat (dim s) (dim s) (corrected_sigma s (kalman_gain s H P) H)"
    unfolding corrected_sigma_def
    using correction_shape [OF shapes_okD(4) [OF sh] dim_pos] .
  ultimately show ?thesis
    using assms(1) shapes_last_length [OF sh]
    unfolding s'
    by (auto simp: cov_ok_def shapes_ok_def dim_def corrected_state_length
        split: option.splits)
qed

lemma cov_ok_step:
  assumes "cov_ok s" "step raises s d = Inr s'"
  shows "cov_ok s'"
proof (cases "col1 d = - 1")
  case True
  with assms show ?thesis by (auto simp: step_def cov_ok_motion)
next
  case False
  from step_measurement [OF assms(2) False] assms(1) show ?thesis
    by (auto intro: cov_ok_mu cov_ok_da)
qed

lemma cov_ok_run: "cov_ok s \<Longrightarrow> run raises s evs = Inr s' \<Longrightarrow> cov_ok s'"
proof (induction evs arbitrary: s)
  case Nil
  then show ?case by simp
next
  case (Cons d evs)
  then show ?case
    by (auto split: sum.splits dest: cov_ok_step)
qed

lemma cov_ok_init:
  assumes "is_mat 3 3 R0" "is_mat 3 3 Q0" "symmetric_m 3 Q0"
  shows "cov_ok (initialization li gt R0 Q0)"
  using assms
  by (auto simp: cov_ok_def shapes_ok_def initialization_def Let_def dim_def is_mat_iff
      symmetric_m_iff)

text \<open>
  The shapes alone are kept as well: from \<open>initialization\<close> with 3 x 3 noise matrices
  the event loop only reaches objects in which every index that a method reads is in
  range.
\<close>

lemma shapes_ok_init:
  assumes "is_mat 3 3 R0" "is_mat 3 3 Q0"
  shows "shapes_ok (initialization li gt R0 Q0)"
  using assms
  by (auto simp: shapes_ok_def initialization_def Let_def dim_def is_mat_iff)

lemma shapes_ok_motion:
  assumes "shapes_ok s"
  shows "shapes_ok (motion_update s c)"
proof -
  have "is_mat (dim s) (dim s) (predicted_sigma s c dt)" for dt
    using congruence_shape [OF motion_jacobian_shape dim_pos dim_pos, of s c dt "sigma s"]
    by (simp add: predicted_sigma_def Let_def is_mat_set2)
  with motion_update_cases [where s = s and c = c] assms shapes_last_length [OF assms]
  show ?thesis
    by (auto simp: shapes_ok_def dim_def predicted_state_length split: option.splits)
qed

lemma shapes_ok_da:
  assumes "shapes_ok s" "data_association raises s z = Inr s'"
  shows "shapes_ok s'"
proof (cases "map_of (landmark_indexes s) (col1 z)")
  case None
  with assms show ?thesis by (simp add: data_association_foreign)
next
  case (Some idx)
  let ?s1 = "init_landmark s z idx"
  from assms(2) Some have b: "idx < length (landmark_observed s)"
    by (simp add: data_association_def split: if_splits)
  from assms(2) obtain m' a'
    where loop: "scoring_loop raises ?s1 z (pose_of s) [1..<length (landmark_indexes s) + 1]
                   (10 ^ 16, association ?s1) = Inr (m', a')"
      and s': "s' = ?s1\<lparr>association := a'\<rparr>"
    unfolding data_association_unfold [OF Some b]
    by (auto split: sum.splits prod.splits)
  note c1 = init_landmark_shapes [OF assms(1) b, of z]
  from scoring_loop_assoc [OF loop] show ?thesis
  proof
    assume "a' = association ?s1"
    with c1 show ?thesis by (simp add: s')
  next
    assume "\<exists>i. a' = Some (candidate ?s1 z (pose_of s) i)"
    then obtain i where a': "a' = Some (candidate ?s1 z (pose_of s) i)" ..
    from jacobian_shape [of ?s1 "pose_of s" i]
      innovation_cov_shape [OF jacobian_shape, of ?s1 "pose_of s" i] c1
    show ?thesis
      by (auto simp: s' a' candidate_def difference_of_def shapes_ok_def dim_def
          split: option.splits)
  qed
qed

lemma shapes_ok_mu:
  assumes "shapes_ok s" "measurement_update raises s z = Inr s'"
  shows "shapes_ok s'"
  using measurement_update_cases [OF assms(2)] assms(1) shapes_last_length [OF assms(1)]
    correction_shape [OF shapes_okD(4) [OF assms(1)] dim_pos]
  by (auto simp: shapes_ok_def dim_def corrected_state_length corrected_sigma_def
      split: option.splits)

lemma shapes_ok_step:
  assumes "shapes_ok s" "step raises s d = Inr s'"
  shows "shapes_ok s'"
proof (cases "col1 d = - 1")
  case True
  with assms show ?thesis by (auto simp: step_def shapes_ok_motion)
next
  case False
  from step_measurement [OF assms(2) False] assms(1) show ?thesis
    by (auto intro: shapes_ok_mu shapes_ok_da)
qed

lemma shapes_ok_run: "shapes_ok s \<Longrightarrow> run raises s evs = Inr s' \<Longrightarrow> shapes_ok s'"
proof (induction evs arbitrary: s)
  case Nil
  then show ?case by simp
next
  case (Cons d evs)
  then show ?case
    by (auto split: sum.splits dest: shapes_ok_step)
qed

lemma motion_update_dim: "dim (motion_update s c) = dim s"
  using motion_update_cases [where s = s and c = c] by (auto simp: dim_def)

lemma measurement_update_dim: "measurement_update raises s z = Inr s' \<Longrightarrow> dim s' = dim s"
  by (auto dest!: measurement_update_cases simp: dim_def)

text \<open>
  C7. Take a filter object of the right shapes whose covariance is symmetric and whose
  measurement noise \<open>Q\<close> is a symmetric matrix, as covariance matrices are. In exact
  arithmetic the covariance is symmetric after a prediction step, after a correction
  step, and in every object that the event loop reaches by any sequence of events.
\<close>

theorem covariance_stays_symmetric:
  assumes "cov_ok s"
  shows "symmetric_m (dim s) (sigma (motion_update s c)) \<and>
         (measurement_update raises s z = Inr s1 \<longrightarrow> symmetric_m (dim s) (sigma s1)) \<and>
         (run raises s evs = Inr s' \<longrightarrow> symmetric_m (dim s') (sigma s'))"
proof (intro conjI impI)
  show "symmetric_m (dim s) (sigma (motion_update s c))"
    using cov_ok_motion [OF assms, of c] by (simp add: cov_ok_def motion_update_dim)
next
  assume "measurement_update raises s z = Inr s1"
  from cov_ok_mu [OF assms this] measurement_update_dim [OF this]
  show "symmetric_m (dim s) (sigma s1)" by (simp add: cov_ok_def)
next
  assume "run raises s evs = Inr s'"
  from cov_ok_run [OF assms this] show "symmetric_m (dim s') (sigma s')"
    by (simp add: cov_ok_def)
qed

lemma ex_s1a_cov: "cov_ok ex_s1a"
  by (simp add: cov_ok_def shapes_ok_def is_mat_def dim_def symmetric_m_def upt_evals
      ex_s1a_def ex_s1_def ex_sigma0_def ex_I3_def ex_H_def ex_Psi_def)

theorem covariance_stays_symmetric_witness:
  "cov_ok ex_s1a \<and> measurement_update ex_raises ex_s1a ex_z = Inr ex_s2 \<and>
   run ex_raises ex_s1a [ex_turn] = Inr (motion_update ex_s1a ex_turn) \<and>
   symmetric_m (dim ex_s1a) (sigma (motion_update ex_s1a ex_turn)) \<and>
   symmetric_m (dim ex_s1a) (sigma ex_s2)"
proof -
  have r: "run ex_raises ex_s1a [ex_turn] = Inr (motion_update ex_s1a ex_turn)"
    by (simp add: step_def ex_turn_def)
  show ?thesis
    using covariance_stays_symmetric [OF ex_s1a_cov, where c = ex_turn and z = ex_z
        and ?s1.0 = ex_s2 and evs = "[ex_turn]" and s' = "motion_update ex_s1a ex_turn"]
      ex_s1a_cov ex_mu r
    by blast
qed

end
